theory Spec2Isabelle
  imports
    Main
    "HOL-Library.Word"
    "HOL-Library.Char_ord"
    "HOL-Library.List_Lexorder"
begin

section \<open>Python values, exceptions and external processes\<close>

text \<open>
  Paths and texts are Python \<open>str\<close> values, modelled as \<open>string\<close>; file contents are
  byte lists. An operation of the program either returns a value, raises an exception,
  or never returns (it waits for a child process without any time limit).
\<close>

type_synonym path = string
type_synonym byte = "8 word"

datatype exn =
    TimeoutExpired
  | CalledProcessError
  | OSError string
  | ValueError string
  | IndexError string
  | SameFileError
  | FileExistsError
  | PyException string

datatype 'a outcome = Returns 'a | Raises exn | Hangs

text \<open>
  What a child process does once started: it exits after some seconds with a return code
  and its standard output, it never exits, or it cannot be started at all (the executable
  is missing, for instance).
\<close>

datatype proc = Exits nat int string | NeverExits | SpawnFails exn

text \<open>
  \<open>subprocess.run(argv, capture_output=True, timeout=t)\<close> without \<open>check=True\<close>: an empty
  argument vector raises \<open>IndexError\<close>, a failed start raises the operating system's error,
  a child that outlives the time limit raises \<open>TimeoutExpired\<close>, and with no time limit the
  call waits for the child however long it takes.
\<close>

fun subprocess_run :: "string list \<Rightarrow> proc \<Rightarrow> nat option \<Rightarrow> (int \<times> string) outcome" where
  "subprocess_run [] p t = Raises (IndexError ''list index out of range'')"
| "subprocess_run (a # as) (SpawnFails e) t = Raises e"
| "subprocess_run (a # as) (Exits d rc out) None = Returns (rc, out)"
| "subprocess_run (a # as) (Exits d rc out) (Some t) =
     (if t < d then Raises TimeoutExpired else Returns (rc, out))"
| "subprocess_run (a # as) NeverExits None = Hangs"
| "subprocess_run (a # as) NeverExits (Some t) = Raises TimeoutExpired"

section \<open>Python string operations\<close>

definition py_isspace :: "char \<Rightarrow> bool" where
  "py_isspace c = (let n = (of_char c :: nat) in (9 \<le> n \<and> n \<le> 13) \<or> (28 \<le> n \<and> n \<le> 32))"

definition py_strip :: "string \<Rightarrow> string" where
  "py_strip s = rev (dropWhile py_isspace (rev (dropWhile py_isspace s)))"

text \<open>\<open>s.split(c)\<close> for a one-character separator: empty pieces are kept.\<close>

fun py_split :: "char \<Rightarrow> string \<Rightarrow> string list" where
  "py_split c [] = [[]]"
| "py_split c (x # xs) =
     (if x = c then [] # py_split c xs
      else (case py_split c xs of
              w # ws \<Rightarrow> (x # w) # ws
            | [] \<Rightarrow> [[x]]))"

text \<open>\<open>s.split()\<close>: pieces between runs of white space, none of them empty.\<close>

fun py_split_ws_acc :: "string \<Rightarrow> string \<Rightarrow> string list" where
  "py_split_ws_acc w [] = (if w = [] then [] else [rev w])"
| "py_split_ws_acc w (x # xs) =
     (if py_isspace x then (if w = [] then py_split_ws_acc [] xs else rev w # py_split_ws_acc [] xs)
      else py_split_ws_acc (x # w) xs)"

definition py_split_ws :: "string \<Rightarrow> string list" where
  "py_split_ws s = py_split_ws_acc [] s"

definition py_lower_char :: "char \<Rightarrow> char" where
  "py_lower_char c =
     (let n = (of_char c :: nat) in if 65 \<le> n \<and> n \<le> 90 then char_of (n + 32) else c)"

definition py_lower :: "string \<Rightarrow> string" where
  "py_lower s = map py_lower_char s"

definition py_startswith :: "string \<Rightarrow> string \<Rightarrow> bool" where
  "py_startswith s p = (take (length p) s = p)"

definition py_endswith :: "string \<Rightarrow> string \<Rightarrow> bool" where
  "py_endswith s p = (length p \<le> length s \<and> drop (length s - length p) s = p)"

text \<open>\<open>needle in hay\<close> on strings.\<close>

fun py_in :: "string \<Rightarrow> string \<Rightarrow> bool" where
  "py_in needle [] = (needle = [])"
| "py_in needle (h # hs) = (py_startswith (h # hs) needle \<or> py_in needle hs)"

fun py_join :: "string \<Rightarrow> string list \<Rightarrow> string" where
  "py_join sep [] = []"
| "py_join sep [x] = x"
| "py_join sep (x # y # ys) = x @ sep @ py_join sep (y # ys)"

section \<open>\<open>os.path\<close> on POSIX\<close>

definition join_step :: "string \<Rightarrow> string \<Rightarrow> string" where
  "join_step p b =
     (if py_startswith b ''/'' then b
      else if p = [] \<or> py_endswith p ''/'' then p @ b
      else p @ ''/'' @ b)"

definition os_path_join :: "string \<Rightarrow> string list \<Rightarrow> string" where
  "os_path_join a ps = foldl join_step a ps"

text \<open>\<open>p.rfind('/') + 1\<close>: the length of the part up to and including the last slash.\<close>

definition rfind_slash_plus1 :: "string \<Rightarrow> nat" where
  "rfind_slash_plus1 p = length p - length (takeWhile (\<lambda>c. c \<noteq> CHR ''/'') (rev p))"

definition rstrip_slash :: "string \<Rightarrow> string" where
  "rstrip_slash s = rev (dropWhile (\<lambda>c. c = CHR ''/'') (rev s))"

definition os_path_dirname :: "string \<Rightarrow> string" where
  "os_path_dirname p =
     (let head = take (rfind_slash_plus1 p) p
      in if head \<noteq> [] \<and> head \<noteq> replicate (length head) CHR ''/'' then rstrip_slash head else head)"

definition os_path_basename :: "string \<Rightarrow> string" where
  "os_path_basename p = drop (rfind_slash_plus1 p) p"

definition normpath_step :: "nat \<Rightarrow> string list \<Rightarrow> string \<Rightarrow> string list" where
  "normpath_step initial_slashes new_comps part =
     (if part = [] \<or> part = ''.'' then new_comps
      else if part \<noteq> ''..'' \<or> (initial_slashes = 0 \<and> new_comps = [])
              \<or> (new_comps \<noteq> [] \<and> last new_comps = ''..'')
           then new_comps @ [part]
      else if new_comps \<noteq> [] then butlast new_comps
      else new_comps)"

definition os_path_normpath :: "string \<Rightarrow> string" where
  "os_path_normpath p =
     (if p = [] then ''.''
      else
        let initial_slashes =
              (if py_startswith p ''/''
               then (if py_startswith p ''//'' \<and> \<not> py_startswith p ''///'' then 2 else 1)
               else (0::nat));
            comps = foldl (normpath_step initial_slashes) [] (py_split CHR ''/'' p);
            q = replicate initial_slashes CHR ''/'' @ py_join ''/'' comps
        in if q = [] then ''.'' else q)"

text \<open>\<open>os.path.abspath\<close>; the working directory \<open>cwd\<close> is a parameter.\<close>

definition os_path_abspath :: "string \<Rightarrow> string \<Rightarrow> string" where
  "os_path_abspath cwd p =
     os_path_normpath (if py_startswith p ''/'' then p else os_path_join cwd [p])"

definition path_parts :: "string \<Rightarrow> string list" where
  "path_parts p = filter (\<lambda>x. x \<noteq> []) (py_split CHR ''/'' p)"

fun commonprefix_len :: "string list \<Rightarrow> string list \<Rightarrow> nat" where
  "commonprefix_len (x # xs) (y # ys) = (if x = y then Suc (commonprefix_len xs ys) else 0)"
| "commonprefix_len xs ys = 0"

text \<open>
  \<open>os.path.relpath(path, start)\<close>: the only \<open>ValueError\<close> of the POSIX implementation is the
  one for an empty \<open>path\<close>; a path outside \<open>start\<close> is reached through \<open>..\<close> components.
\<close>

definition os_path_relpath :: "string \<Rightarrow> string \<Rightarrow> string \<Rightarrow> exn + string" where
  "os_path_relpath cwd p start =
     (if p = [] then Inl (ValueError ''no path specified'')
      else
        let start_list = path_parts (os_path_abspath cwd start);
            path_list = path_parts (os_path_abspath cwd p);
            i = commonprefix_len start_list path_list;
            rel_list = replicate (length start_list - i) ''..'' @ drop i path_list
        in if rel_list = [] then Inr ''.'' else Inr (py_join ''/'' rel_list))"

section \<open>Configuration lookups\<close>

text \<open>
  The configuration is a tree of dictionaries read with \<open>d.get(key, default)\<close>; a key that
  may be missing is an \<open>option\<close> field, and \<open>dflt\<close> supplies the default of the call site.
\<close>

definition dflt :: "'a \<Rightarrow> 'a option \<Rightarrow> 'a" where
  "dflt d v = (case v of None \<Rightarrow> d | Some x \<Rightarrow> x)"

fun obind :: "'a outcome \<Rightarrow> ('a \<Rightarrow> 'b outcome) \<Rightarrow> 'b outcome" where
  "obind (Returns x) f = f x"
| "obind (Raises e) f = Raises e"
| "obind Hangs f = Hangs"

section \<open>Camera detection (\<open>core/camera_detector.py\<close>)\<close>

record folder_rule =
  fr_path :: "string option"
  fr_required :: "bool option"

record pattern_rule =
  pr_pattern :: "string option"
  pr_confidence :: "int option"

record exif_rules =
  er_make :: "string option"
  er_model_contains :: "string list option"
  er_confidence :: "int option"

record source_config =
  sc_path :: "string option"
  sc_extensions :: "string list option"
  sc_recursive :: "bool option"

record detection_rules =
  folder_structure :: "folder_rule list option"
  file_patterns :: "pattern_rule list option"
  exif_rules_cfg :: "exif_rules option"

text \<open>
  \<open>exif_rules_cfg = None\<close> stands for a missing or empty \<open>exif_rules\<close> dictionary, the case
  \<open>not exif_rules\<close> of the source.
\<close>

record camera_config =
  connection_type :: "string option"
  cam_name :: "string option"
  detection_rules_cfg :: "detection_rules option"
  file_sources_cfg :: "(string \<times> source_config list) list option"

record CameraDetectionResult =
  camera_id :: string
  camera_name :: string
  confidence_score :: int
  detection_methods :: "string list"
  file_sources :: "(string \<times> string list) list"

text \<open>
  What the detector sees of the machine: which paths exist, what each child process it
  starts does (by argument vector), and the working directory.
\<close>

record det_env =
  path_exists :: "path \<Rightarrow> bool"
  run_proc :: "string list \<Rightarrow> proc"
  cwd :: path

definition rules_of :: "camera_config \<Rightarrow> detection_rules" where
  "rules_of cfg =
     dflt \<lparr>folder_structure = None, file_patterns = None, exif_rules_cfg = None\<rparr>
       (detection_rules_cfg cfg)"

text \<open>\<open>CameraDetector._test_folder_structure\<close>, the loop with its running score.\<close>

fun test_folder_structure_from :: "det_env \<Rightarrow> path \<Rightarrow> folder_rule list \<Rightarrow> int \<Rightarrow> int" where
  "test_folder_structure_from env sd [] score = score"
| "test_folder_structure_from env sd (rule # rules) score =
     (let folder_path = os_path_join sd [dflt [] (fr_path rule)]
      in if path_exists env folder_path
         then (if dflt False (fr_required rule)
               then test_folder_structure_from env sd rules (score + 30)
               else test_folder_structure_from env sd rules (score + 10))
         else if dflt False (fr_required rule) then 0
         else test_folder_structure_from env sd rules score)"

definition test_folder_structure :: "det_env \<Rightarrow> path \<Rightarrow> folder_rule list \<Rightarrow> int" where
  "test_folder_structure env sd folder_rules = test_folder_structure_from env sd folder_rules 0"

text \<open>
  \<open>CameraDetector._test_file_patterns\<close>: one \<open>find\<close> per rule with a limit of 10 seconds;
  only \<open>TimeoutExpired\<close> is caught.
\<close>

definition output_lines :: "string \<Rightarrow> string list" where
  "output_lines out = py_split (CHR 0x0A) (py_strip out)"

fun test_file_patterns_from :: "det_env \<Rightarrow> path \<Rightarrow> pattern_rule list \<Rightarrow> int \<Rightarrow> int outcome" where
  "test_file_patterns_from env sd [] score = Returns score"
| "test_file_patterns_from env sd (rule # rules) score =
     (let pattern = dflt [] (pr_pattern rule);
          confidence = dflt 50 (pr_confidence rule);
          cmd = [''find'', sd, ''-name'', pattern]
      in case subprocess_run cmd (run_proc env cmd) (Some 10) of
           Returns (rc, out) \<Rightarrow>
             (if rc = 0 \<and> py_strip out \<noteq> []
              then (let file_count = int (length (output_lines out))
                    in test_file_patterns_from env sd rules
                         (score + min confidence (confidence + file_count * 5)))
              else test_file_patterns_from env sd rules score)
         | Raises e \<Rightarrow>
             (if e = TimeoutExpired then test_file_patterns_from env sd rules score
              else Raises e)
         | Hangs \<Rightarrow> Hangs)"

definition test_file_patterns :: "det_env \<Rightarrow> path \<Rightarrow> pattern_rule list \<Rightarrow> int outcome" where
  "test_file_patterns env sd pattern_rules = test_file_patterns_from env sd pattern_rules 0"

text \<open>\<open>CameraDetector._find_sample_files\<close>: the loop over the extensions, with its \<open>break\<close>.\<close>

fun find_sample_files_from :: "det_env \<Rightarrow> path \<Rightarrow> string list \<Rightarrow> string list \<Rightarrow> string list outcome" where
  "find_sample_files_from env sd [] sample_files = Returns sample_files"
| "find_sample_files_from env sd (ext # exts) sample_files =
     (let cmd = [''find'', sd, ''-iname'', ''*'' @ ext, ''-type'', ''f'']
      in case subprocess_run cmd (run_proc env cmd) (Some 5) of
           Returns (rc, out) \<Rightarrow>
             (let sample_files' =
                    (if rc = 0 \<and> py_strip out \<noteq> []
                     then sample_files @ take 2 (output_lines out)
                     else sample_files)
              in if 5 \<le> length sample_files' then Returns sample_files'
                 else find_sample_files_from env sd exts sample_files')
         | Raises e \<Rightarrow>
             (if e = TimeoutExpired then find_sample_files_from env sd exts sample_files
              else Raises e)
         | Hangs \<Rightarrow> Hangs)"

definition find_sample_files :: "det_env \<Rightarrow> path \<Rightarrow> string list outcome" where
  "find_sample_files env sd =
     find_sample_files_from env sd [''.jpg'', ''.jpeg'', ''.arw'', ''.mp4'', ''.mov'', ''.lrf''] []"

text \<open>The inner loop over \<open>model_contains\<close>: the first part found in the model ends it.\<close>

fun model_part_found :: "string list \<Rightarrow> string \<Rightarrow> bool" where
  "model_part_found [] model = False"
| "model_part_found (model_part # parts) model =
     (if py_in (py_lower model_part) model then True else model_part_found parts model)"

fun test_exif_samples :: "det_env \<Rightarrow> string \<Rightarrow> string list \<Rightarrow> int \<Rightarrow> string list \<Rightarrow> int \<Rightarrow> int outcome" where
  "test_exif_samples env expected_make model_contains confidence [] score = Returns score"
| "test_exif_samples env expected_make model_contains confidence (sample_file # files) score =
     (let cmd = [''exiftool'', ''-Make'', ''-Model'', ''-s'', ''-s'', ''-s'', sample_file]
      in case subprocess_run cmd (run_proc env cmd) (Some 10) of
           Returns (rc, out) \<Rightarrow>
             (let ls = output_lines out
              in if rc = 0 \<and> 2 \<le> length ls
                 then (let make = py_lower (ls ! 0);
                           model = py_lower (ls ! 1);
                           score1 = (if expected_make \<noteq> [] \<and> py_in expected_make make
                                     then score + confidence div 2 else score);
                           score2 = (if model_part_found model_contains model
                                     then score1 + confidence div 2 else score1)
                       in test_exif_samples env expected_make model_contains confidence files score2)
                 else test_exif_samples env expected_make model_contains confidence files score)
         | Raises e \<Rightarrow>
             (if e = TimeoutExpired \<or> e = CalledProcessError
              then test_exif_samples env expected_make model_contains confidence files score
              else Raises e)
         | Hangs \<Rightarrow> Hangs)"

text \<open>\<open>CameraDetector._test_exif_data\<close>.\<close>

definition test_exif_data :: "det_env \<Rightarrow> path \<Rightarrow> exif_rules option \<Rightarrow> int outcome" where
  "test_exif_data env sd rules_opt =
     (case rules_opt of
        None \<Rightarrow> Returns 0
      | Some rules \<Rightarrow>
          obind (find_sample_files env sd) (\<lambda>sample_files.
            if sample_files = [] then Returns 0
            else
              let expected_make = py_lower (dflt [] (er_make rules));
                  model_contains = dflt [] (er_model_contains rules);
                  confidence = dflt 95 (er_confidence rules)
              in obind (test_exif_samples env expected_make model_contains confidence
                          (take 3 sample_files) 0)
                   (\<lambda>score. Returns (min score confidence))))"

text \<open>\<open>CameraDetector._find_files_in_path\<close> and \<open>CameraDetector._get_file_sources\<close>.\<close>

fun find_files_collect :: "det_env \<Rightarrow> path \<Rightarrow> bool \<Rightarrow> string list \<Rightarrow> string list \<Rightarrow> string list outcome" where
  "find_files_collect env p recursive [] files = Returns files"
| "find_files_collect env p recursive (ext # exts) files =
     (let cmd = (if recursive then [''find'', p, ''-iname'', ''*'' @ ext, ''-type'', ''f'']
                 else [''find'', p, ''-maxdepth'', ''1'', ''-iname'', ''*'' @ ext, ''-type'', ''f''])
      in case subprocess_run cmd (run_proc env cmd) (Some 10) of
           Returns (rc, out) \<Rightarrow>
             (if rc = 0 \<and> py_strip out \<noteq> []
              then find_files_collect env p recursive exts (files @ output_lines out)
              else find_files_collect env p recursive exts files)
         | Raises e \<Rightarrow>
             (if e = TimeoutExpired then find_files_collect env p recursive exts files
              else Raises e)
         | Hangs \<Rightarrow> Hangs)"

definition find_files_in_path :: "det_env \<Rightarrow> path \<Rightarrow> string list \<Rightarrow> bool \<Rightarrow> string list outcome" where
  "find_files_in_path env p extensions recursive =
     (if extensions = [] then Returns []
      else obind (find_files_collect env p recursive extensions [])
             (\<lambda>files. Returns (sort (remdups files))))"

fun source_files_from :: "det_env \<Rightarrow> path \<Rightarrow> source_config list \<Rightarrow> string list \<Rightarrow> string list outcome" where
  "source_files_from env sd [] files = Returns files"
| "source_files_from env sd (source_config # rest) files =
     (let source_path = os_path_join sd [dflt [] (sc_path source_config)];
          extensions = dflt [] (sc_extensions source_config);
          recursive = dflt False (sc_recursive source_config)
      in if path_exists env source_path
         then obind (find_files_in_path env source_path extensions recursive)
                (\<lambda>found_files. source_files_from env sd rest (files @ found_files))
         else source_files_from env sd rest files)"

fun file_sources_from ::
  "det_env \<Rightarrow> path \<Rightarrow> (string \<times> source_config list) list \<Rightarrow> (string \<times> string list) list
     \<Rightarrow> (string \<times> string list) list outcome" where
  "file_sources_from env sd [] acc = Returns acc"
| "file_sources_from env sd ((file_type, source_configs) # rest) acc =
     obind (source_files_from env sd source_configs [])
       (\<lambda>files. file_sources_from env sd rest
                  (if files \<noteq> [] then acc @ [(file_type, files)] else acc))"

definition get_file_sources :: "det_env \<Rightarrow> path \<Rightarrow> camera_config \<Rightarrow> (string \<times> string list) list outcome" where
  "get_file_sources env sd cfg = file_sources_from env sd (dflt [] (file_sources_cfg cfg)) []"

text \<open>
  \<open>CameraDetector._test_camera_match\<close>: the three signals are evaluated one after the other
  and every positive one is added to the confidence score.
\<close>

definition test_camera_match ::
  "det_env \<Rightarrow> path \<Rightarrow> string \<Rightarrow> camera_config \<Rightarrow> CameraDetectionResult outcome" where
  "test_camera_match env sd cid cfg =
     (let structure_score = test_folder_structure env sd (dflt [] (folder_structure (rules_of cfg)));
          score1 = (if 0 < structure_score then structure_score else 0);
          methods1 = (if 0 < structure_score then [''folder_structure''] else [])
      in obind (test_file_patterns env sd (dflt [] (file_patterns (rules_of cfg)))) (\<lambda>pattern_score.
           let score2 = (if 0 < pattern_score then score1 + pattern_score else score1);
               methods2 = (if 0 < pattern_score then methods1 @ [''file_patterns''] else methods1)
           in obind (test_exif_data env sd (exif_rules_cfg (rules_of cfg))) (\<lambda>exif_score.
                let score3 = (if 0 < exif_score then score2 + exif_score else score2);
                    methods3 = (if 0 < exif_score then methods2 @ [''exif_data''] else methods2)
                in obind (if 0 < score3 then get_file_sources env sd cfg else Returns [])
                     (\<lambda>sources. Returns
                        \<lparr>camera_id = cid,
                         camera_name = dflt cid (cam_name cfg),
                         confidence_score = score3,
                         detection_methods = methods3,
                         file_sources = sources\<rparr>))))"

text \<open>\<open>max(results, key=score)\<close>: the first result of the highest score.\<close>

fun max_by_score :: "CameraDetectionResult \<Rightarrow> CameraDetectionResult list \<Rightarrow> CameraDetectionResult" where
  "max_by_score best [] = best"
| "max_by_score best (r # rs) =
     (if confidence_score best < confidence_score r then max_by_score r rs else max_by_score best rs)"

fun detect_from ::
  "det_env \<Rightarrow> path \<Rightarrow> (string \<times> camera_config) list \<Rightarrow> CameraDetectionResult list
     \<Rightarrow> CameraDetectionResult list outcome" where
  "detect_from env sd [] detection_results = Returns detection_results"
| "detect_from env sd ((cid, cfg) # rest) detection_results =
     (if connection_type cfg = Some ''mtp'' then detect_from env sd rest detection_results
      else obind (test_camera_match env sd cid cfg) (\<lambda>result.
             detect_from env sd rest
               (if 0 < confidence_score result then detection_results @ [result]
                else detection_results)))"

text \<open>\<open>CameraDetector.detect_camera\<close>; \<open>None\<close> is Python's \<open>None\<close>.\<close>

definition detect_camera ::
  "det_env \<Rightarrow> (string \<times> camera_config) list \<Rightarrow> path \<Rightarrow> CameraDetectionResult option outcome" where
  "detect_camera env cameras sd =
     (if \<not> path_exists env sd then Returns None
      else obind (detect_from env sd cameras []) (\<lambda>detection_results.
             case detection_results of
               [] \<Rightarrow> Returns None
             | r # rs \<Rightarrow> Returns (Some (max_by_score r rs))))"

text \<open>
  \<open>CameraDetector.prepare_file_list\<close>: the two nested loops over the categories and their
  files. \<open>preserve\<close> is the setting \<open>preserve_folder_structure\<close> (an \<open>option\<close>, default true).
\<close>

fun prepare_files :: "path \<Rightarrow> bool option \<Rightarrow> path \<Rightarrow> string \<Rightarrow> string list \<Rightarrow> (string \<times> string) list" where
  "prepare_files wd preserve sd file_type [] = []"
| "prepare_files wd preserve sd file_type (file_path # files) =
     (case os_path_relpath wd file_path sd of
        Inr rel_path \<Rightarrow>
          (file_path,
           if \<not> dflt True preserve
           then os_path_join file_type [os_path_basename file_path]
           else rel_path) # prepare_files wd preserve sd file_type files
      | Inl e \<Rightarrow> prepare_files wd preserve sd file_type files)"

fun prepare_file_list ::
  "path \<Rightarrow> bool option \<Rightarrow> (string \<times> string list) list \<Rightarrow> path \<Rightarrow> (string \<times> string) list" where
  "prepare_file_list wd preserve [] sd = []"
| "prepare_file_list wd preserve ((file_type, files) # rest) sd =
     prepare_files wd preserve sd file_type files @ prepare_file_list wd preserve rest sd"

section \<open>The machine seen by the transfer manager (\<open>core/transfer_manager.py\<close>)\<close>

record TransferResult =
  success :: bool
  source_file :: string
  dest_file :: string
  checksum :: string
  error_message :: "string option"
  transfer_time :: int

record TransferStats =
  total_files :: int
  successful_transfers :: int
  failed_transfers :: int
  total_size :: int
  transferred_size :: int
  start_time :: int
  end_time :: int

record network_settings =
  nas_test_command :: "string option"
  nas_timeout_seconds :: "nat option"
  vpn_check_command :: "string option"

record transfer_config =
  transfer_mode :: "string option"
  fallback_to_local :: "bool option"
  local_storage_path :: "string option"
  nas_storage_path :: "string option"
  preserve_timestamps :: "bool option"
  network_settings_cfg :: "network_settings option"

text \<open>
  What \<open>shutil.copy2\<close> does for a pair of paths: it copies faithfully, it returns normally
  but leaves other bytes at the destination (a corrupted write), or it raises, possibly
  leaving a partial destination file behind.
\<close>

datatype copy_fault = CopyOk | CopyWrites "byte list" | CopyFails exn "byte list option"

text \<open>
  The file system holds regular files and directories. A path string is only a name: the
  object it names is \<open>resolve p\<close>, and two strings that name the same object (through
  \<open>./\<close>, \<open>//\<close>, \<open>..\<close> or a symbolic link) resolve alike. Hard links are left out.
\<close>

datatype node = File "byte list" | Dir

text \<open>
  The read-only side of the machine. Faults of the file system are fixed per path for the
  length of a run; the \<open>n\<close>-th child process started during the run behaves as
  \<open>spawn n argv\<close>, so that a probe may answer differently when it is repeated. Times are
  read from \<open>now\<close> in whole ticks. The digest function of \<open>hashlib\<close> is the parameter
  \<open>sha256\<close>, and \<open>dir_size\<close> is the size that \<open>stat\<close> reports for a directory.
\<close>

record io_env =
  sha256 :: "byte list \<Rightarrow> string"
  resolve :: "path \<Rightarrow> path"
  dir_size :: "path \<Rightarrow> nat"
  read_error :: "path \<Rightarrow> exn option"
  getsize_error :: "path \<Rightarrow> bool"
  makedirs_error :: "path \<Rightarrow> exn option"
  copy_fault_of :: "path \<Rightarrow> path \<Rightarrow> copy_fault"
  stat_error :: "path \<Rightarrow> exn option"
  utime_error :: "path \<Rightarrow> exn option"
  remove_error :: "path \<Rightarrow> exn option"
  spawn :: "nat \<Rightarrow> string list \<Rightarrow> proc"
  now :: int

text \<open>
  The mutable side: the objects of the file system by resolved name, the statistics of
  the transfer manager, and the number of child processes started so far.
\<close>

record machine =
  nodes :: "path \<rightharpoonup> node"
  stats :: TransferStats
  spawned :: nat

fun exn_str :: "exn \<Rightarrow> string" where
  "exn_str TimeoutExpired = ''timed out''"
| "exn_str CalledProcessError = ''returned non-zero exit status''"
| "exn_str (OSError s) = s"
| "exn_str (ValueError s) = s"
| "exn_str (IndexError s) = s"
| "exn_str SameFileError = ''are the same file''"
| "exn_str FileExistsError = ''File exists''"
| "exn_str (PyException s) = s"

text \<open>The exceptions that \<open>except OSError\<close> catches.\<close>

fun is_oserror :: "exn \<Rightarrow> bool" where
  "is_oserror (OSError s) = True"
| "is_oserror FileExistsError = True"
| "is_oserror SameFileError = True"
| "is_oserror e = False"

text \<open>The object that a path names; the empty path names none.\<close>

definition node_at :: "io_env \<Rightarrow> machine \<Rightarrow> path \<Rightarrow> node option" where
  "node_at env m p = (if p = [] then None else nodes m (resolve env p))"

definition os_path_exists :: "io_env \<Rightarrow> machine \<Rightarrow> path \<Rightarrow> bool" where
  "os_path_exists env m p = (node_at env m p \<noteq> None)"

definition os_path_isdir :: "io_env \<Rightarrow> machine \<Rightarrow> path \<Rightarrow> bool" where
  "os_path_isdir env m p = (node_at env m p = Some Dir)"

definition os_path_getsize :: "io_env \<Rightarrow> machine \<Rightarrow> path \<Rightarrow> exn + int" where
  "os_path_getsize env m p =
     (case node_at env m p of
        None \<Rightarrow> Inl (OSError ''No such file or directory'')
      | Some n \<Rightarrow>
          if getsize_error env p then Inl (OSError ''Input/output error'')
          else (case n of File c \<Rightarrow> Inr (int (length c)) | Dir \<Rightarrow> Inr (int (dir_size env p))))"

text \<open>\<open>open(p, 'rb')\<close> followed by reading all of the file.\<close>

definition open_read :: "io_env \<Rightarrow> machine \<Rightarrow> path \<Rightarrow> exn + byte list" where
  "open_read env m p =
     (case node_at env m p of
        None \<Rightarrow> Inl (OSError ''No such file or directory'')
      | Some Dir \<Rightarrow> Inl (OSError ''Is a directory'')
      | Some (File c) \<Rightarrow> (case read_error env p of Some e \<Rightarrow> Inl e | None \<Rightarrow> Inr c))"

text \<open>
  \<open>os.mkdir(name)\<close>: refused for the empty name, for a name that exists, and when the
  parent is missing or is not a directory (a name without a parent lies in the working
  directory); \<open>makedirs_error\<close> stands for the refusals of the operating system.
\<close>

definition os_mkdir :: "io_env \<Rightarrow> machine \<Rightarrow> path \<Rightarrow> exn option \<times> machine" where
  "os_mkdir env m name =
     (let parent = os_path_dirname (rstrip_slash name)
      in if name = [] then (Some (OSError ''No such file or directory''), m)
         else if os_path_exists env m name then (Some FileExistsError, m)
         else if parent \<noteq> [] \<and> \<not> os_path_exists env m parent
              then (Some (OSError ''No such file or directory''), m)
         else if parent \<noteq> [] \<and> \<not> os_path_isdir env m parent
              then (Some (OSError ''Not a directory''), m)
         else (case makedirs_error env name of
                 Some e \<Rightarrow> (Some e, m)
               | None \<Rightarrow> (None, m\<lparr>nodes := (nodes m)(resolve env name \<mapsto> Dir)\<rparr>)))"

text \<open>
  \<open>os.makedirs(name, exist_ok=True)\<close>. \<open>makedirs_parts\<close> is the head and tail that the
  function splits off first; \<open>makedirs_leaf\<close> is its last step, the \<open>mkdir\<close> whose
  \<open>OSError\<close> is dropped when the name is a directory by then.
\<close>

definition makedirs_parts :: "path \<Rightarrow> path \<times> path" where
  "makedirs_parts name =
     (if os_path_basename name = []
      then (os_path_dirname (os_path_dirname name), os_path_basename (os_path_dirname name))
      else (os_path_dirname name, os_path_basename name))"

definition makedirs_leaf :: "io_env \<Rightarrow> machine \<Rightarrow> path \<Rightarrow> exn option \<times> machine" where
  "makedirs_leaf env m name =
     (case os_mkdir env m name of
        (Some e, m1) \<Rightarrow>
          if is_oserror e \<and> os_path_isdir env m1 name then (None, m1) else (Some e, m1)
      | (None, m1) \<Rightarrow> (None, m1))"

function os_makedirs :: "io_env \<Rightarrow> machine \<Rightarrow> path \<Rightarrow> exn option \<times> machine" where
  "os_makedirs env m name =
     (if fst (makedirs_parts name) \<noteq> [] \<and> snd (makedirs_parts name) \<noteq> []
         \<and> \<not> os_path_exists env m (fst (makedirs_parts name))
      then (case os_makedirs env m (fst (makedirs_parts name)) of
              (Some e, m1) \<Rightarrow>
                if e = FileExistsError
                then (if snd (makedirs_parts name) = ''.'' then (None, m1)
                      else makedirs_leaf env m1 name)
                else (Some e, m1)
            | (None, m1) \<Rightarrow>
                if snd (makedirs_parts name) = ''.'' then (None, m1)
                else makedirs_leaf env m1 name)
      else makedirs_leaf env m name)"
  by pat_completeness auto
termination
proof (relation "measure (\<lambda>(env, m, name). length name)")
  show "wf (measure (\<lambda>(env :: io_env, m :: machine, name :: path). length name))"
    by simp
next
  fix env :: io_env and m :: machine and name :: path
  assume recurse: "fst (makedirs_parts name) \<noteq> [] \<and> snd (makedirs_parts name) \<noteq> []
      \<and> \<not> os_path_exists env m (fst (makedirs_parts name))"
  have shorter: "length (os_path_dirname p) \<le> length (take (rfind_slash_plus1 p) p)" for p
    by (simp add: os_path_dirname_def Let_def rstrip_slash_def
        order_trans [OF length_dropWhile_le])
  have le: "length (os_path_dirname p) \<le> length p" for p
    using shorter [of p] by simp
  have less: "length (os_path_dirname p) < length p" if "os_path_basename p \<noteq> []" for p
  proof -
    from that have "rfind_slash_plus1 p < length p"
      by (simp add: os_path_basename_def)
    with shorter [of p] show ?thesis by simp
  qed
  have "length (fst (makedirs_parts name)) < length name"
    using recurse less [of name] less [of "os_path_dirname name"] le [of name]
    by (auto simp: makedirs_parts_def split: if_splits)
  then show "((env, m, fst (makedirs_parts name)), (env, m, name))
      \<in> measure (\<lambda>(env, m, name). length name)"
    by simp
qed

declare os_makedirs.simps [simp del]

definition os_stat :: "io_env \<Rightarrow> machine \<Rightarrow> path \<Rightarrow> exn option" where
  "os_stat env m p =
     (if os_path_exists env m p then stat_error env p
      else Some (OSError ''No such file or directory''))"

definition os_utime :: "io_env \<Rightarrow> machine \<Rightarrow> path \<Rightarrow> exn option" where
  "os_utime env m p =
     (if os_path_exists env m p then utime_error env p
      else Some (OSError ''No such file or directory''))"

definition os_remove :: "io_env \<Rightarrow> machine \<Rightarrow> path \<Rightarrow> exn option \<times> machine" where
  "os_remove env m p =
     (case node_at env m p of
        None \<Rightarrow> (Some (OSError ''No such file or directory''), m)
      | Some Dir \<Rightarrow> (Some (OSError ''Is a directory''), m)
      | Some (File c) \<Rightarrow>
          (case remove_error env p of
             Some e \<Rightarrow> (Some e, m)
           | None \<Rightarrow> (None, m\<lparr>nodes := (nodes m)(resolve env p := None)\<rparr>)))"

text \<open>
  \<open>shutil.copy2(src, dst)\<close>. A destination that is a directory stands for the file of the
  source's base name inside it. \<open>copyfile\<close> refuses two names of one object, opens the
  source, then opens the destination for writing (which needs its directory, and that it
  is no directory itself) and copies; \<open>copystat\<close> then reads the times and the mode of
  the source and sets them on the copy, \<open>utime_error\<close> standing for every refusal in
  setting them.
\<close>

definition copy_target :: "io_env \<Rightarrow> machine \<Rightarrow> path \<Rightarrow> path \<Rightarrow> path" where
  "copy_target env m src dst =
     (if os_path_isdir env m dst then os_path_join dst [os_path_basename src] else dst)"

definition write_file :: "io_env \<Rightarrow> machine \<Rightarrow> path \<Rightarrow> byte list \<Rightarrow> machine" where
  "write_file env m p bs = m\<lparr>nodes := (nodes m)(resolve env p \<mapsto> File bs)\<rparr>"

definition shutil_copyfile :: "io_env \<Rightarrow> machine \<Rightarrow> path \<Rightarrow> path \<Rightarrow> exn option \<times> machine" where
  "shutil_copyfile env m src dst =
     (if os_path_exists env m src \<and> os_path_exists env m dst \<and> resolve env src = resolve env dst
      then (Some SameFileError, m)
      else (case open_read env m src of
              Inl e \<Rightarrow> (Some e, m)
            | Inr c \<Rightarrow>
                if os_path_isdir env m dst then (Some (OSError ''Is a directory''), m)
                else if dst = []
                        \<or> (os_path_dirname dst \<noteq> [] \<and> \<not> os_path_isdir env m (os_path_dirname dst))
                     then (Some (OSError ''No such file or directory''), m)
                else (case copy_fault_of env src dst of
                        CopyOk \<Rightarrow> (None, write_file env m dst c)
                      | CopyWrites bs \<Rightarrow> (None, write_file env m dst bs)
                      | CopyFails e None \<Rightarrow> (Some e, m)
                      | CopyFails e (Some bs) \<Rightarrow> (Some e, write_file env m dst bs))))"

definition shutil_copystat :: "io_env \<Rightarrow> machine \<Rightarrow> path \<Rightarrow> path \<Rightarrow> exn option" where
  "shutil_copystat env m src dst =
     (case os_stat env m src of Some e \<Rightarrow> Some e | None \<Rightarrow> os_utime env m dst)"

definition shutil_copy2 :: "io_env \<Rightarrow> machine \<Rightarrow> path \<Rightarrow> path \<Rightarrow> exn option \<times> machine" where
  "shutil_copy2 env m src dst =
     (case shutil_copyfile env m src (copy_target env m src dst) of
        (Some e, m1) \<Rightarrow> (Some e, m1)
      | (None, m1) \<Rightarrow> (shutil_copystat env m1 src (copy_target env m src dst), m1))"

section \<open>\<open>NetworkManager\<close>\<close>

record connection_status =
  nas_available :: bool
  vpn_active :: bool

definition run_child :: "io_env \<Rightarrow> machine \<Rightarrow> string list \<Rightarrow> nat option \<Rightarrow> (int \<times> string) outcome \<times> machine" where
  "run_child env m argv t =
     (subprocess_run argv (spawn env (spawned m) argv) t, m\<lparr>spawned := Suc (spawned m)\<rparr>)"

text \<open>
  \<open>NetworkManager.test_nas_connectivity\<close>: the command is split at white space and run with
  the configured time limit; \<open>TimeoutExpired\<close> and \<open>CalledProcessError\<close> are caught.
\<close>

definition test_nas_connectivity :: "network_settings \<Rightarrow> io_env \<Rightarrow> machine \<Rightarrow> bool outcome \<times> machine" where
  "test_nas_connectivity net env m =
     (let cmd = dflt ''ping -c 1 -W 5 synology.local'' (nas_test_command net)
      in case run_child env m (py_split_ws cmd) (Some (dflt 10 (nas_timeout_seconds net))) of
           (Returns (rc, out), m') \<Rightarrow> (Returns (rc = 0), m')
         | (Raises e, m') \<Rightarrow>
             (if e = TimeoutExpired \<or> e = CalledProcessError then (Returns False, m')
              else (Raises e, m'))
         | (Hangs, m') \<Rightarrow> (Hangs, m'))"

text \<open>
  \<open>NetworkManager.check_vpn_status\<close>: the command goes to the shell, and
  \<open>subprocess.run\<close> is given no \<open>timeout\<close>; only \<open>CalledProcessError\<close> is caught.
\<close>

definition check_vpn_status :: "network_settings \<Rightarrow> io_env \<Rightarrow> machine \<Rightarrow> bool outcome \<times> machine" where
  "check_vpn_status net env m =
     (let cmd = dflt ''ip route | grep -q tun0'' (vpn_check_command net)
      in case run_child env m [''/bin/sh'', ''-c'', cmd] None of
           (Returns (rc, out), m') \<Rightarrow> (Returns (rc = 0), m')
         | (Raises e, m') \<Rightarrow>
             (if e = CalledProcessError then (Returns False, m') else (Raises e, m'))
         | (Hangs, m') \<Rightarrow> (Hangs, m'))"

text \<open>\<open>NetworkManager.get_connection_status\<close>: both probes, the storage probe first.\<close>

definition get_connection_status ::
  "network_settings \<Rightarrow> io_env \<Rightarrow> machine \<Rightarrow> connection_status outcome \<times> machine" where
  "get_connection_status net env m =
     (case test_nas_connectivity net env m of
        (Returns nas, m1) \<Rightarrow>
          (case check_vpn_status net env m1 of
             (Returns vpn, m2) \<Rightarrow> (Returns \<lparr>nas_available = nas, vpn_active = vpn\<rparr>, m2)
           | (Raises e, m2) \<Rightarrow> (Raises e, m2)
           | (Hangs, m2) \<Rightarrow> (Hangs, m2))
      | (Raises e, m1) \<Rightarrow> (Raises e, m1)
      | (Hangs, m1) \<Rightarrow> (Hangs, m1))"

section \<open>\<open>ChecksumManager\<close>\<close>

text \<open>
  \<open>iter(lambda: f.read(n), b"")\<close>: the chunks of at most \<open>n\<close> bytes read until the first
  empty read. The hash object accumulates the bytes it is fed, and its \<open>hexdigest\<close> is the
  digest of all of them.
\<close>

function read_chunks :: "nat \<Rightarrow> byte list \<Rightarrow> byte list list" where
  "read_chunks n bs = (if take n bs = [] then [] else take n bs # read_chunks n (drop n bs))"
  by pat_completeness auto
termination
  by (relation "measure (\<lambda>(n, bs). length bs)") auto

declare read_chunks.simps [simp del]

definition hash_update :: "byte list \<Rightarrow> byte list \<Rightarrow> byte list" where
  "hash_update fed chunk = fed @ chunk"

definition calculate_checksum :: "io_env \<Rightarrow> machine \<Rightarrow> path \<Rightarrow> exn + string" where
  "calculate_checksum env m file_path =
     (case open_read env m file_path of
        Inl e \<Rightarrow> Inl e
      | Inr content \<Rightarrow> Inr (sha256 env (foldl hash_update [] (read_chunks 8192 content))))"

text \<open>\<open>ChecksumManager.verify_transfer\<close>; every exception of the two reads is caught.\<close>

definition verify_transfer :: "io_env \<Rightarrow> machine \<Rightarrow> path \<Rightarrow> path \<Rightarrow> bool" where
  "verify_transfer env m source dest =
     (if \<not> os_path_exists env m dest then False
      else (case calculate_checksum env m source of
              Inl e \<Rightarrow> False
            | Inr source_checksum \<Rightarrow>
                (case calculate_checksum env m dest of
                   Inl e \<Rightarrow> False
                 | Inr dest_checksum \<Rightarrow> source_checksum = dest_checksum)))"

section \<open>\<open>TransferManager\<close>\<close>

text \<open>The settings handed to the \<open>NetworkManager\<close> by \<open>TransferManager.__init__\<close>.\<close>

definition network_of :: "transfer_config \<Rightarrow> network_settings" where
  "network_of cfg =
     dflt \<lparr>nas_test_command = None, nas_timeout_seconds = None, vpn_check_command = None\<rparr>
       (network_settings_cfg cfg)"


text \<open>
  \<open>TransferManager._copy_file_with_verification\<close>: \<open>copy_attempt\<close> is the \<open>try\<close> statement,
  every exception of whose body ends in the handler that stores its text in
  \<open>error_message\<close>; the method then records the elapsed time.
\<close>

definition failed_with :: "TransferResult \<Rightarrow> exn \<Rightarrow> TransferResult" where
  "failed_with result e = result\<lparr>error_message := Some (exn_str e)\<rparr>"

definition copy_attempt ::
  "io_env \<Rightarrow> machine \<Rightarrow> path \<Rightarrow> path \<Rightarrow> bool \<Rightarrow> TransferResult \<times> machine" where
  "copy_attempt env m source destination preserve =
     (let result = \<lparr>success = False, source_file = source, dest_file = destination,
                    checksum = [], error_message = None, transfer_time = 0\<rparr>
      in case calculate_checksum env m source of
           Inl e \<Rightarrow> (failed_with result e, m)
         | Inr source_checksum \<Rightarrow>
             (let result1 = result\<lparr>checksum := source_checksum\<rparr>
              in case os_makedirs env m (os_path_dirname destination) of
                   (Some e, m0) \<Rightarrow> (failed_with result1 e, m0)
                 | (None, m0) \<Rightarrow>
                     (case shutil_copy2 env m0 source destination of
                        (Some e, m1) \<Rightarrow> (failed_with result1 e, m1)
                      | (None, m1) \<Rightarrow>
                          if verify_transfer env m1 source destination
                          then (let result2 = result1\<lparr>success := True\<rparr>
                                in if preserve
                                   then (case os_stat env m1 source of
                                           Some e \<Rightarrow> (failed_with result2 e, m1)
                                         | None \<Rightarrow>
                                             (case os_utime env m1 destination of
                                                Some e \<Rightarrow> (failed_with result2 e, m1)
                                              | None \<Rightarrow> (result2, m1)))
                                   else (result2, m1))
                          else (let result2 =
                                      result1\<lparr>error_message := Some ''Checksum verification failed''\<rparr>
                                in if os_path_exists env m1 destination
                                   then (case os_remove env m1 destination of
                                           (Some e, m2) \<Rightarrow> (failed_with result2 e, m2)
                                         | (None, m2) \<Rightarrow> (result2, m2))
                                   else (result2, m1)))))"

definition copy_file_with_verification ::
  "io_env \<Rightarrow> machine \<Rightarrow> path \<Rightarrow> path \<Rightarrow> bool \<Rightarrow> TransferResult \<times> machine" where
  "copy_file_with_verification env m source destination preserve =
     (let start = now env;
          (result, m') = copy_attempt env m source destination preserve
      in (result\<lparr>transfer_time := now env - start\<rparr>, m'))"

text \<open>\<open>TransferManager._update_stats\<close>.\<close>

definition update_stats :: "io_env \<Rightarrow> machine \<Rightarrow> TransferResult \<Rightarrow> path \<Rightarrow> machine" where
  "update_stats env m result source =
     (if success result
      then (let m1 = m\<lparr>stats := (stats m)\<lparr>successful_transfers := successful_transfers (stats m) + 1\<rparr>\<rparr>
            in case os_path_getsize env m1 source of
                 Inr n \<Rightarrow> m1\<lparr>stats := (stats m1)\<lparr>transferred_size := transferred_size (stats m1) + n\<rparr>\<rparr>
               | Inl e \<Rightarrow> m1)
      else m\<lparr>stats := (stats m)\<lparr>failed_transfers := failed_transfers (stats m) + 1\<rparr>\<rparr>)"


text \<open>
  \<open>TransferManager._sync_to_nas_async\<close>: the loop over the staged files, then the method
  with its probe. The result of each copy is only logged.
\<close>

fun sync_files ::
  "transfer_config \<Rightarrow> io_env \<Rightarrow> machine \<Rightarrow> (path \<times> path) list \<Rightarrow> string \<Rightarrow> string \<Rightarrow> machine" where
  "sync_files cfg env m [] device_name import_date = m"
| "sync_files cfg env m ((local_file, relative_dest) # rest) device_name import_date =
     (let nas_base = dflt ''/mnt/nas/Photos'' (nas_storage_path cfg);
          nas_dest = os_path_join nas_base [device_name, import_date, relative_dest];
          (result, m1) = copy_file_with_verification env m local_file nas_dest True
      in sync_files cfg env m1 rest device_name import_date)"

definition sync_to_nas_async ::
  "transfer_config \<Rightarrow> io_env \<Rightarrow> machine \<Rightarrow> (path \<times> path) list \<Rightarrow> string \<Rightarrow> string
     \<Rightarrow> unit outcome \<times> machine" where
  "sync_to_nas_async cfg env m local_files device_name import_date =
     (case test_nas_connectivity (network_of cfg) env m of
        (Returns reachable, m1) \<Rightarrow>
          (if reachable then (Returns (), sync_files cfg env m1 local_files device_name import_date)
           else (Returns (), m1))
      | (Raises e, m1) \<Rightarrow> (Raises e, m1)
      | (Hangs, m1) \<Rightarrow> (Hangs, m1))"

text \<open>
  \<open>TransferManager._transfer_local_first\<close>: the staging loop, which returns the machine and
  the list \<open>local_transfers\<close>, then the push.
\<close>

fun stage_files ::
  "transfer_config \<Rightarrow> io_env \<Rightarrow> machine \<Rightarrow> (path \<times> path) list \<Rightarrow> string \<Rightarrow> string
     \<Rightarrow> (path \<times> path) list \<Rightarrow> machine \<times> (path \<times> path) list" where
  "stage_files cfg env m [] device_name import_date local_transfers = (m, local_transfers)"
| "stage_files cfg env m ((source, relative_dest) # rest) device_name import_date local_transfers =
     (let local_base = dflt ''/tmp/photos'' (local_storage_path cfg);
          local_dest = os_path_join local_base [device_name, import_date, relative_dest];
          (result, m1) = copy_file_with_verification env m source local_dest
                           (dflt True (preserve_timestamps cfg))
      in stage_files cfg env (update_stats env m1 result source) rest device_name import_date
           (if success result then local_transfers @ [(local_dest, relative_dest)]
            else local_transfers))"

definition transfer_local_first ::
  "transfer_config \<Rightarrow> io_env \<Rightarrow> machine \<Rightarrow> (path \<times> path) list \<Rightarrow> string \<Rightarrow> string
     \<Rightarrow> unit outcome \<times> machine" where
  "transfer_local_first cfg env m file_list device_name import_date =
     (let (m1, local_transfers) = stage_files cfg env m file_list device_name import_date []
      in sync_to_nas_async cfg env m1 local_transfers device_name import_date)"






section \<open>\<open>DuplicateManager\<close>\<close>

text \<open>
  \<open>DuplicateManager.check_duplicates\<close>: the loop with its two dictionaries, \<open>duplicates\<close>
  (digest to group) and \<open>checksums\<close> (digest to the first path seen with it).
\<close>

fun check_duplicates_from ::
  "io_env \<Rightarrow> machine \<Rightarrow> path list \<Rightarrow> (string \<rightharpoonup> path list) \<Rightarrow> (string \<rightharpoonup> path)
     \<Rightarrow> (string \<rightharpoonup> path list)" where
  "check_duplicates_from env m [] duplicates checksums = duplicates"
| "check_duplicates_from env m (file_path # rest) duplicates checksums =
     (case calculate_checksum env m file_path of
        Inl e \<Rightarrow> check_duplicates_from env m rest duplicates checksums
      | Inr c \<Rightarrow>
          (case checksums c of
             Some first_path \<Rightarrow>
               (case duplicates c of
                  None \<Rightarrow>
                    check_duplicates_from env m rest
                      (duplicates(c \<mapsto> [first_path] @ [file_path])) checksums
                | Some g \<Rightarrow>
                    check_duplicates_from env m rest
                      (duplicates(c \<mapsto> g @ [file_path])) checksums)
           | None \<Rightarrow> check_duplicates_from env m rest duplicates (checksums(c \<mapsto> file_path))))"

definition check_duplicates ::
  "io_env \<Rightarrow> machine \<Rightarrow> path list \<Rightarrow> string \<Rightarrow> string \<Rightarrow> (string \<rightharpoonup> path list)" where
  "check_duplicates env m file_list device_name import_date =
     check_duplicates_from env m file_list Map.empty Map.empty"

section \<open>Notions used to state the results\<close>

text \<open>The paths of a list whose digest can be computed and is \<open>d\<close>, in the order of the list.\<close>

definition paths_with_digest :: "io_env \<Rightarrow> machine \<Rightarrow> string \<Rightarrow> path list \<Rightarrow> path list" where
  "paths_with_digest env m d ps = filter (\<lambda>p. calculate_checksum env m p = Inr d) ps"

text \<open>
  The two dictionaries of \<open>check_duplicates\<close> after the paths \<open>ps\<close> have been processed:
  the groups of two or more paths, and the first path of every digest.
\<close>

definition groups_of :: "io_env \<Rightarrow> machine \<Rightarrow> path list \<Rightarrow> (string \<rightharpoonup> path list)" where
  "groups_of env m ps =
     (\<lambda>d. if 2 \<le> length (paths_with_digest env m d ps)
           then Some (paths_with_digest env m d ps) else None)"

definition firsts_of :: "io_env \<Rightarrow> machine \<Rightarrow> path list \<Rightarrow> (string \<rightharpoonup> path)" where
  "firsts_of env m ps =
     (\<lambda>d. case paths_with_digest env m d ps of [] \<Rightarrow> None | p # _ \<Rightarrow> Some p)"

text \<open>
  The destination of a relative path under the remote root and under the local root, as
  the two strategies compute it; the size that \<open>os.path.getsize\<close> adds for a source (nothing
  when it raises); and the order on statistics in which no counter is smaller.
\<close>

definition nas_dest_of :: "transfer_config \<Rightarrow> string \<Rightarrow> string \<Rightarrow> path \<Rightarrow> path" where
  "nas_dest_of cfg device_name import_date relative_dest =
     os_path_join (dflt ''/mnt/nas/Photos'' (nas_storage_path cfg))
       [device_name, import_date, relative_dest]"


definition source_size :: "io_env \<Rightarrow> machine \<Rightarrow> path \<Rightarrow> int" where
  "source_size env m p = (case os_path_getsize env m p of Inr n \<Rightarrow> n | Inl e \<Rightarrow> 0)"


text \<open>
  The content of the regular file that an object of the file system is, if it is one; and
  the objects that the copy of \<open>src\<close> to \<open>dst\<close> can write or remove: the destination, or
  the file of the source's base name inside it when the destination is a directory.
\<close>

definition file_of :: "machine \<Rightarrow> path \<Rightarrow> byte list option" where
  "file_of m i = (case nodes m i of Some (File c) \<Rightarrow> Some c | _ \<Rightarrow> None)"

definition copy_targets :: "io_env \<Rightarrow> path \<Rightarrow> path \<Rightarrow> path set" where
  "copy_targets env src dst =
     {resolve env dst, resolve env (os_path_join dst [os_path_basename src])}"


section \<open>Example inputs\<close>

text \<open>
  A card mounted at \<open>/mnt/sd\<close> with no \<open>DCIM\<close> folder on which \<open>find -name '*.JPG'\<close> lists
  \<open>n\<close> files, and a profile that requires \<open>DCIM\<close> and has one file pattern of confidence 50.
\<close>

definition card_without_dcim :: "nat \<Rightarrow> det_env" where
  "card_without_dcim n =
     \<lparr>path_exists = (\<lambda>p. p = ''/mnt/sd''),
      run_proc = (\<lambda>argv. if argv = [''find'', ''/mnt/sd'', ''-name'', ''*.JPG'']
                          then Exits 1 0 (concat (replicate n (''/mnt/sd/A.JPG'' @ [CHR 0x0A])))
                          else Exits 0 1 []),
      cwd = ''/''\<rparr>"

definition jpg_rule :: pattern_rule where
  "jpg_rule = \<lparr>pr_pattern = Some ''*.JPG'', pr_confidence = Some 50\<rparr>"

definition dcim_profile :: camera_config where
  "dcim_profile =
     \<lparr>connection_type = None, cam_name = Some ''Sony'',
      detection_rules_cfg = Some
        \<lparr>folder_structure = Some [\<lparr>fr_path = Some ''DCIM'', fr_required = Some True\<rparr>],
         file_patterns = Some [jpg_rule],
         exif_rules_cfg = None\<rparr>,
      file_sources_cfg = None\<rparr>"

text \<open>
  A digest of fixed length for the examples (the first four bytes, padded with zeros), and
  the resolution of names on a file system without links, from the root as working
  directory.
\<close>

definition short_digest :: "byte list \<Rightarrow> string" where
  "short_digest bs = map (\<lambda>b. char_of (unat b)) (take 4 (bs @ [0, 0, 0, 0]))"

definition lexical_resolve :: "path \<Rightarrow> path" where
  "lexical_resolve p =
     (let q = os_path_normpath (os_path_join ''/'' [p])
      in if py_startswith q ''//'' then tl q else q)"

text \<open>
  A machine without faults on which every child process exits at once with code 0, and a
  card with three files, the first two of the same content.
\<close>

definition plain_env :: io_env where
  "plain_env =
     \<lparr>sha256 = short_digest,
      resolve = lexical_resolve,
      dir_size = (\<lambda>p. 4096),
      read_error = (\<lambda>p. None),
      getsize_error = (\<lambda>p. False),
      makedirs_error = (\<lambda>p. None),
      copy_fault_of = (\<lambda>src dst. CopyOk),
      stat_error = (\<lambda>p. None),
      utime_error = (\<lambda>p. None),
      remove_error = (\<lambda>p. None),
      spawn = (\<lambda>n argv. Exits 0 0 []),
      now = 0\<rparr>"

definition no_stats :: TransferStats where
  "no_stats =
     \<lparr>total_files = 0, successful_transfers = 0, failed_transfers = 0, total_size = 0,
      transferred_size = 0, start_time = 0, end_time = 0\<rparr>"

definition card_files :: machine where
  "card_files =
     \<lparr>nodes = [''/'' \<mapsto> Dir, ''/sd'' \<mapsto> Dir, ''/sd/a.jpg'' \<mapsto> File [1, 2, 3],
               ''/sd/b.jpg'' \<mapsto> File [1, 2, 3], ''/sd/c.jpg'' \<mapsto> File [1, 2, 4]],
      stats = no_stats,
      spawned = 0\<rparr>"



text \<open>
  A configuration that leaves the mode to the probe, the same with the local fallback
  switched off, and four machines: one on which every child exits with code 1, one on
  which no child ever exits, one on which no child can be started, and one on which the
  first child exits with code 0 and every later one never exits.
\<close>

definition auto_cfg :: transfer_config where
  "auto_cfg =
     \<lparr>transfer_mode = None, fallback_to_local = None, local_storage_path = Some ''/local'',
      nas_storage_path = Some ''/nas'', preserve_timestamps = None,
      network_settings_cfg = None\<rparr>"

definition strict_cfg :: transfer_config where
  "strict_cfg = auto_cfg\<lparr>fallback_to_local := Some False\<rparr>"

definition offline_env :: io_env where
  "offline_env = plain_env\<lparr>spawn := (\<lambda>n argv. Exits 0 1 [])\<rparr>"

definition hanging_env :: io_env where
  "hanging_env = plain_env\<lparr>spawn := (\<lambda>n argv. NeverExits)\<rparr>"

definition no_child_env :: io_env where
  "no_child_env = plain_env\<lparr>spawn := (\<lambda>n argv. SpawnFails (OSError ''No such file or directory''))\<rparr>"


definition one_file :: "(path \<times> path) list" where
  "one_file = [(''/sd/a.jpg'', ''DCIM/a.jpg'')]"




definition nested_cfg :: transfer_config where
  "nested_cfg =
     \<lparr>transfer_mode = Some ''local_first'', fallback_to_local = None,
      local_storage_path = Some ''/a/c/d'', nas_storage_path = Some ''/a'',
      preserve_timestamps = None, network_settings_cfg = None\<rparr>"

definition nested_files :: "(path \<times> path) list" where
  "nested_files = [(''/sd/a.jpg'', ''c/d/x''), (''/sd/c.jpg'', ''x'')]"

definition corrupt_push_env :: io_env where
  "corrupt_push_env =
     plain_env\<lparr>copy_fault_of :=
       (\<lambda>src dst. if src = ''/a/c/d/c/d/c/d/x'' then CopyWrites [9] else CopyOk)\<rparr>"



section \<open>The detection score\<close>

text \<open>
  The folder signal by itself is a gate: one required folder that is missing makes
  \<open>_test_folder_structure\<close> return 0, whatever the other folder rules add.
\<close>

lemma folder_signal_zero_when_required_missing:
  "\<exists>r \<in> set rules. dflt False (fr_required r)
        \<and> \<not> path_exists env (os_path_join sd [dflt [] (fr_path r)])
   \<Longrightarrow> test_folder_structure_from env sd rules score = 0"
  by (induction rules arbitrary: score) (auto simp: Let_def)

text \<open>
  Claim C1. A profile with a required folder that is missing should end with a total
  confidence score of exactly 0, whatever the other signals say. The code does not do
  this: \<open>_test_camera_match\<close> only sees a folder score of 0 and goes on to add the file
  pattern and metadata scores. On the card without \<open>DCIM\<close> the folder signal is 0, yet the
  profile that requires \<open>DCIM\<close> gets the score 50 from its file pattern, and
  \<open>detect_camera\<close> returns it as the detected camera.
\<close>

theorem required_folder_missing_still_scores:
  "test_folder_structure (card_without_dcim 1) ''/mnt/sd''
       [\<lparr>fr_path = Some ''DCIM'', fr_required = Some True\<rparr>] = 0
   \<and> test_camera_match (card_without_dcim 1) ''/mnt/sd'' ''sony'' dcim_profile =
       Returns \<lparr>camera_id = ''sony'', camera_name = ''Sony'', confidence_score = 50,
                 detection_methods = [''file_patterns''], file_sources = []\<rparr>
   \<and> detect_camera (card_without_dcim 1) [(''sony'', dcim_profile)] ''/mnt/sd'' =
       Returns (Some \<lparr>camera_id = ''sony'', camera_name = ''Sony'', confidence_score = 50,
                       detection_methods = [''file_patterns''], file_sources = []\<rparr>)"
  by code_simp

text \<open>
  The contribution of one pattern rule is \<open>min(confidence, confidence + file_count * 5)\<close>,
  and the count is never negative, so it is the base confidence itself.
\<close>

lemma pattern_contribution_is_base_confidence:
  "min confidence (confidence + int file_count * 5) = confidence"
  by simp

text \<open>
  Claim C6. A pattern rule of base confidence \<open>C\<close> with matching files should add \<open>C\<close> plus a
  small bonus for every extra file, the bonus being capped; a rule without matching files
  adds 0. The code adds \<open>C\<close> and never any bonus: with one matching file and with three
  the rule of confidence 50 adds exactly 50, and with none it adds 0.
\<close>

theorem file_pattern_bonus_never_added:
  "test_file_patterns (card_without_dcim 1) ''/mnt/sd'' [jpg_rule] = Returns 50
   \<and> test_file_patterns (card_without_dcim 3) ''/mnt/sd'' [jpg_rule] = Returns 50
   \<and> test_file_patterns (card_without_dcim 0) ''/mnt/sd'' [jpg_rule] = Returns 0"
  by code_simp

section \<open>The file list\<close>

text \<open>
  \<open>os.path.relpath\<close> raises only for an empty path, so \<open>prepare_file_list\<close> keeps every
  other path of the file sources, in order, wherever it lies.
\<close>

lemma prepare_files_sources:
  "map fst (prepare_files wd preserve sd file_type fs) = filter (\<lambda>p. p \<noteq> []) fs"
  by (induction fs) (auto simp: os_path_relpath_def Let_def)

lemma prepare_file_list_sources:
  "map fst (prepare_file_list wd preserve sources sd)
     = filter (\<lambda>p. p \<noteq> []) (concat (map snd sources))"
  by (induction sources) (auto simp: prepare_files_sources)

text \<open>
  Claim C7. A path of the file sources should reach the file list only when it lies under
  the mount path, and a path outside it should be left out rather than get a relative
  path with upward components. The code keeps it: for the card mounted at \<open>/mnt/sd\<close> the
  source \<open>/other/x.jpg\<close> is paired with \<open>../../other/x.jpg\<close>. The file under the mount path
  gets its path relative to the root, or the category folder and its base name when the
  layout is not preserved.
\<close>

theorem prepare_file_list_keeps_outside_path:
  "prepare_file_list ''/'' None
       [(''photos'', [''/other/x.jpg'', ''/mnt/sd/DCIM/a.jpg''])] ''/mnt/sd''
     = [(''/other/x.jpg'', ''../../other/x.jpg''), (''/mnt/sd/DCIM/a.jpg'', ''DCIM/a.jpg'')]
   \<and> prepare_file_list ''/'' (Some False)
       [(''photos'', [''/other/x.jpg'', ''/mnt/sd/DCIM/a.jpg''])] ''/mnt/sd''
     = [(''/other/x.jpg'', ''photos/x.jpg''), (''/mnt/sd/DCIM/a.jpg'', ''photos/a.jpg'')]"
  by code_simp

section \<open>Digests and verification\<close>

text \<open>Reading in chunks feeds the hash object the whole content, in order.\<close>

lemma read_chunks_feed:
  "0 < n \<Longrightarrow> foldl hash_update fed (read_chunks n bs) = fed @ bs"
proof (induction n bs arbitrary: fed rule: read_chunks.induct)
  case (1 n bs)
  show ?case
  proof (cases "take n bs = []")
    case True
    have e: "bs = []" using True "1.prems" by simp
    have "read_chunks n [] = []" by (subst read_chunks.simps) simp
    with e show ?thesis by simp
  next
    case False
    have "foldl hash_update fed (read_chunks n bs)
            = foldl hash_update (fed @ take n bs) (read_chunks n (drop n bs))"
      using False by (subst read_chunks.simps) (simp add: hash_update_def)
    also have "\<dots> = (fed @ take n bs) @ drop n bs"
      using "1.IH" [OF False "1.prems"] .
    finally show ?thesis by simp
  qed
qed

lemma calculate_checksum_content:
  "calculate_checksum env m p =
     (case open_read env m p of Inl e \<Rightarrow> Inl e | Inr c \<Rightarrow> Inr (sha256 env c))"
  by (simp add: calculate_checksum_def read_chunks_feed split: sum.splits)

lemma open_read_exists: "open_read env m p = Inr c \<Longrightarrow> os_path_exists env m p"
  by (auto simp: open_read_def os_path_exists_def split: option.splits node.splits)

lemma verify_transfer_digests:
  "verify_transfer env m a b =
     (\<exists>ca cb. open_read env m a = Inr ca \<and> open_read env m b = Inr cb
        \<and> sha256 env ca = sha256 env cb)"
proof (cases "open_read env m b")
  case (Inl e)
  then show ?thesis
    by (simp add: verify_transfer_def calculate_checksum_content split: sum.splits)
next
  case (Inr cb)
  then show ?thesis
    using open_read_exists [OF Inr]
    by (simp add: verify_transfer_def calculate_checksum_content split: sum.splits)
qed

text \<open>The names of the examples resolve to themselves, and their digests differ.\<close>

lemma example_names:
  "lexical_resolve ''/sd/a.jpg'' = ''/sd/a.jpg''"
  "lexical_resolve ''/sd/b.jpg'' = ''/sd/b.jpg''"
  "lexical_resolve ''/sd/c.jpg'' = ''/sd/c.jpg''"
  "lexical_resolve ''/sd/gone.jpg'' = ''/sd/gone.jpg''"
  "lexical_resolve ''/nas/a.jpg'' = ''/nas/a.jpg''"
  "lexical_resolve ''/sd'' = ''/sd''"
  "lexical_resolve ''/nas'' = ''/nas''"
  "lexical_resolve ''/'' = ''/''"
  by code_simp+

lemma example_digests:
  "short_digest [1, 2, 3] \<noteq> short_digest [1, 2, 4]"
  "short_digest [1, 2, 3] \<noteq> short_digest [9]"
  by code_simp+

lemmas eval_read = open_read_def node_at_def os_path_exists_def os_path_isdir_def
  plain_env_def card_files_def example_names

text \<open>
  Claim C4, as the code has it. \<open>verify(a, b)\<close> is false whenever \<open>b\<close> does not exist and
  whenever one of the two files cannot be read (no exception leaves it). When both can be
  read it is true exactly when the digests of the two full contents are equal: so it is
  true for identical contents, and for contents that differ it is false unless their
  digests coincide.
\<close>

theorem verify_transfer_compares_digests:
  "(\<not> os_path_exists env m b \<longrightarrow> \<not> verify_transfer env m a b)
   \<and> ((\<exists>e. open_read env m a = Inl e) \<or> (\<exists>e. open_read env m b = Inl e)
        \<longrightarrow> \<not> verify_transfer env m a b)
   \<and> (open_read env m a = Inr ca \<and> open_read env m b = Inr cb
        \<longrightarrow> verify_transfer env m a b = (sha256 env ca = sha256 env cb))
   \<and> (open_read env m a = Inr c \<and> open_read env m b = Inr c \<longrightarrow> verify_transfer env m a b)
   \<and> (open_read env m p = Inr c \<longrightarrow> calculate_checksum env m p = Inr (sha256 env c))"
proof (intro conjI impI)
  assume "\<not> os_path_exists env m b"
  then show "\<not> verify_transfer env m a b"
    by (simp add: verify_transfer_def)
next
  assume "(\<exists>e. open_read env m a = Inl e) \<or> (\<exists>e. open_read env m b = Inl e)"
  then show "\<not> verify_transfer env m a b"
    by (auto simp: verify_transfer_digests)
next
  assume "open_read env m a = Inr ca \<and> open_read env m b = Inr cb"
  then show "verify_transfer env m a b = (sha256 env ca = sha256 env cb)"
    by (simp add: verify_transfer_digests)
next
  assume "open_read env m a = Inr c \<and> open_read env m b = Inr c"
  then show "verify_transfer env m a b"
    by (simp add: verify_transfer_digests)
next
  assume "open_read env m p = Inr c"
  then show "calculate_checksum env m p = Inr (sha256 env c)"
    by (simp add: calculate_checksum_content)
qed

theorem verify_transfer_compares_digests_witness:
  "\<not> verify_transfer plain_env card_files ''/sd/a.jpg'' ''/nas/a.jpg''
   \<and> \<not> verify_transfer plain_env card_files ''/sd/a.jpg'' ''/sd''
   \<and> verify_transfer plain_env card_files ''/sd/a.jpg'' ''/sd/c.jpg''
        = (sha256 plain_env [1, 2, 3] = sha256 plain_env [1, 2, 4])
   \<and> verify_transfer plain_env card_files ''/sd/a.jpg'' ''/sd/b.jpg''
   \<and> calculate_checksum plain_env card_files ''/sd/a.jpg'' = Inr (sha256 plain_env [1, 2, 3])"
proof (intro conjI)
  have absent: "\<not> os_path_exists plain_env card_files ''/nas/a.jpg''"
    by (simp add: eval_read)
  show "\<not> verify_transfer plain_env card_files ''/sd/a.jpg'' ''/nas/a.jpg''"
    by (rule verify_transfer_compares_digests [THEN conjunct1, THEN mp, OF absent])
next
  have "open_read plain_env card_files ''/sd'' = Inl (OSError ''Is a directory'')"
    by (simp add: eval_read)
  then have unreadable: "(\<exists>e. open_read plain_env card_files ''/sd/a.jpg'' = Inl e)
      \<or> (\<exists>e. open_read plain_env card_files ''/sd'' = Inl e)"
    by blast
  show "\<not> verify_transfer plain_env card_files ''/sd/a.jpg'' ''/sd''"
    by (rule verify_transfer_compares_digests
          [THEN conjunct2, THEN conjunct1, THEN mp, OF unreadable])
next
  have both: "open_read plain_env card_files ''/sd/a.jpg'' = Inr [1, 2, 3]
      \<and> open_read plain_env card_files ''/sd/c.jpg'' = Inr [1, 2, 4]"
    by (simp add: eval_read)
  show "verify_transfer plain_env card_files ''/sd/a.jpg'' ''/sd/c.jpg''
        = (sha256 plain_env [1, 2, 3] = sha256 plain_env [1, 2, 4])"
    by (rule verify_transfer_compares_digests
          [THEN conjunct2, THEN conjunct2, THEN conjunct1, THEN mp, OF both])
next
  have same: "open_read plain_env card_files ''/sd/a.jpg'' = Inr [1, 2, 3]
      \<and> open_read plain_env card_files ''/sd/b.jpg'' = Inr [1, 2, 3]"
    by (simp add: eval_read)
  show "verify_transfer plain_env card_files ''/sd/a.jpg'' ''/sd/b.jpg''"
    by (rule verify_transfer_compares_digests
          [THEN conjunct2, THEN conjunct2, THEN conjunct2, THEN conjunct1, THEN mp, OF same])
next
  have readable: "open_read plain_env card_files ''/sd/a.jpg'' = Inr [1, 2, 3]"
    by (simp add: eval_read)
  show "calculate_checksum plain_env card_files ''/sd/a.jpg'' = Inr (sha256 plain_env [1, 2, 3])"
    by (rule verify_transfer_compares_digests
          [THEN conjunct2, THEN conjunct2, THEN conjunct2, THEN conjunct2, THEN mp, OF readable])
qed

text \<open>
  Claim C4 as it is written, true if and only if the contents are byte-identical, fails
  for every digest of a fixed length, that of SHA-256 among them: there are more contents
  than digests, so two different contents have the same digest, and two readable files
  that hold them verify.
\<close>

theorem verify_transfer_not_byte_identical:
  "\<not> (\<exists>H n. (\<forall>bs. length (H bs) = n)
        \<and> (\<forall>m a b ca cb.
              open_read (plain_env\<lparr>sha256 := H\<rparr>) m a = Inr ca
              \<and> open_read (plain_env\<lparr>sha256 := H\<rparr>) m b = Inr cb
              \<longrightarrow> verify_transfer (plain_env\<lparr>sha256 := H\<rparr>) m a b = (ca = cb)))"
proof
  assume "\<exists>H n. (\<forall>bs. length (H bs) = n)
        \<and> (\<forall>m a b ca cb.
              open_read (plain_env\<lparr>sha256 := H\<rparr>) m a = Inr ca
              \<and> open_read (plain_env\<lparr>sha256 := H\<rparr>) m b = Inr cb
              \<longrightarrow> verify_transfer (plain_env\<lparr>sha256 := H\<rparr>) m a b = (ca = cb))"
  then obtain H :: "byte list \<Rightarrow> string" and n
    where fixed: "\<And>bs. length (H bs) = n"
      and exact: "\<And>m a b ca cb.
              open_read (plain_env\<lparr>sha256 := H\<rparr>) m a = Inr ca
              \<Longrightarrow> open_read (plain_env\<lparr>sha256 := H\<rparr>) m b = Inr cb
              \<Longrightarrow> verify_transfer (plain_env\<lparr>sha256 := H\<rparr>) m a b = (ca = cb)"
    by blast
  let ?env = "plain_env\<lparr>sha256 := H\<rparr>"
  have "inj H"
  proof (rule injI)
    fix x y
    assume same: "H x = H y"
    let ?m = "card_files\<lparr>nodes := [''/sd/a.jpg'' \<mapsto> File x, ''/sd/b.jpg'' \<mapsto> File y]\<rparr>"
    have a: "open_read ?env ?m ''/sd/a.jpg'' = Inr x" and b: "open_read ?env ?m ''/sd/b.jpg'' = Inr y"
      by (simp_all add: open_read_def node_at_def plain_env_def example_names)
    have "verify_transfer ?env ?m ''/sd/a.jpg'' ''/sd/b.jpg''"
      using a b same by (simp add: verify_transfer_digests)
    with exact [OF a b] show "x = y" by simp
  qed
  moreover have "finite (range H)"
  proof (rule finite_subset)
    show "range H \<subseteq> {s. set s \<subseteq> UNIV \<and> length s = n}"
      using fixed by auto
    show "finite {s :: string. set s \<subseteq> UNIV \<and> length s = n}"
      by (rule finite_lists_length_eq) simp
  qed
  ultimately have "finite (UNIV :: byte list set)"
    by (rule finite_imageD [rotated])
  then show False
    by (simp add: infinite_UNIV_listI)
qed

section \<open>Duplicate groups\<close>

lemma paths_with_digest_snoc_fail:
  "calculate_checksum env m p = Inl e \<Longrightarrow>
     paths_with_digest env m d (ps @ [p]) = paths_with_digest env m d ps"
  by (simp add: paths_with_digest_def)

lemma paths_with_digest_snoc:
  "calculate_checksum env m p = Inr c \<Longrightarrow>
     paths_with_digest env m d (ps @ [p])
       = (if d = c then paths_with_digest env m d ps @ [p] else paths_with_digest env m d ps)"
  by (auto simp add: paths_with_digest_def)

text \<open>
  The loop invariant: after the paths \<open>pre\<close> the two dictionaries are \<open>groups_of\<close> and
  \<open>firsts_of\<close> of \<open>pre\<close>, so the loop over the rest ends with the groups of the whole list.
\<close>

lemma check_duplicates_from_groups:
  "check_duplicates_from env m rest (groups_of env m pre) (firsts_of env m pre)
     = groups_of env m (pre @ rest)"
proof (induction rest arbitrary: pre)
  case Nil
  show ?case by simp
next
  case (Cons p rest)
  note IH = Cons.IH [of "pre @ [p]"]
  have step:
    "check_duplicates_from env m (p # rest) (groups_of env m pre) (firsts_of env m pre)
       = check_duplicates_from env m rest (groups_of env m (pre @ [p]))
           (firsts_of env m (pre @ [p]))"
  proof (cases "calculate_checksum env m p")
    case (Inl e)
    have "groups_of env m (pre @ [p]) = groups_of env m pre"
         "firsts_of env m (pre @ [p]) = firsts_of env m pre"
      by (simp_all add: groups_of_def firsts_of_def paths_with_digest_snoc_fail [OF Inl]
          cong: if_cong)
    then show ?thesis by (simp add: Inl)
  next
    case (Inr c)
    show ?thesis
    proof (cases "paths_with_digest env m c pre")
      case Nil
      have f: "firsts_of env m pre c = None" by (simp add: firsts_of_def Nil)
      have F: "firsts_of env m (pre @ [p]) = (firsts_of env m pre)(c \<mapsto> p)"
        by (rule ext) (simp add: firsts_of_def paths_with_digest_snoc [OF Inr] Nil)
      have G: "groups_of env m (pre @ [p]) = groups_of env m pre"
        by (rule ext) (simp add: groups_of_def paths_with_digest_snoc [OF Inr] Nil)
      show ?thesis unfolding F G by (simp add: Inr f)
    next
      case (Cons q qs)
      note pre = this
      have f: "firsts_of env m pre c = Some q" by (simp add: firsts_of_def pre)
      have F: "firsts_of env m (pre @ [p]) = firsts_of env m pre"
        by (rule ext)
          (auto simp add: firsts_of_def paths_with_digest_snoc [OF Inr] pre split: list.splits)
      show ?thesis
      proof (cases qs)
        case Nil
        have g: "groups_of env m pre c = None" by (simp add: groups_of_def pre Nil)
        have G: "groups_of env m (pre @ [p]) = (groups_of env m pre)(c \<mapsto> [q] @ [p])"
          by (rule ext) (simp add: groups_of_def paths_with_digest_snoc [OF Inr] pre Nil)
        show ?thesis unfolding F G by (simp add: Inr f g)
      next
        case (Cons r rs)
        have g: "groups_of env m pre c = Some (q # qs)" by (simp add: groups_of_def pre Cons)
        have G: "groups_of env m (pre @ [p]) = (groups_of env m pre)(c \<mapsto> (q # qs) @ [p])"
          by (rule ext) (simp add: groups_of_def paths_with_digest_snoc [OF Inr] pre Cons)
        show ?thesis unfolding F G by (simp add: Inr f g)
      qed
    qed
  qed
  also have "\<dots> = groups_of env m ((pre @ [p]) @ rest)" by (rule IH)
  finally show ?case by simp
qed

lemma check_duplicates_groups_of:
  "check_duplicates env m ps device_name import_date = groups_of env m ps"
proof -
  have "groups_of env m [] = Map.empty" "firsts_of env m [] = Map.empty"
    by (simp_all add: groups_of_def firsts_of_def paths_with_digest_def)
  with check_duplicates_from_groups [of env m ps "[]"] show ?thesis
    by (simp add: check_duplicates_def)
qed

text \<open>
  Claim C8, over the entries of the input list. The group that \<open>check_duplicates\<close> returns
  for a digest \<open>d\<close> is the list of the input entries with that digest when there are two
  or more, and there is no group otherwise. So every group has at least two entries, each
  an input path with the group's digest; a path whose digest only one entry of the input
  has is in no group; in an input list without repeated entries a path whose digest no
  other input path has is in no group; and a path whose digest cannot be computed is in
  no group, the other paths being grouped all the same.
\<close>

theorem check_duplicates_groups:
  "check_duplicates env m ps device_name import_date d
     = (if 2 \<le> length (paths_with_digest env m d ps)
        then Some (paths_with_digest env m d ps) else None)
   \<and> (check_duplicates env m ps device_name import_date d = Some g \<longrightarrow>
        2 \<le> length g \<and> (\<forall>q \<in> set g. q \<in> set ps \<and> calculate_checksum env m q = Inr d))
   \<and> (calculate_checksum env m p = Inr d \<and> length (paths_with_digest env m d ps) = 1 \<longrightarrow>
        (\<forall>d' g'. check_duplicates env m ps device_name import_date d' = Some g' \<longrightarrow> p \<notin> set g'))
   \<and> (distinct ps \<and> calculate_checksum env m p = Inr d
        \<and> (\<forall>q \<in> set ps. q \<noteq> p \<longrightarrow> calculate_checksum env m q \<noteq> Inr d) \<longrightarrow>
        (\<forall>d' g'. check_duplicates env m ps device_name import_date d' = Some g' \<longrightarrow> p \<notin> set g'))
   \<and> (calculate_checksum env m p = Inl e \<longrightarrow>
        (\<forall>d' g'. check_duplicates env m ps device_name import_date d' = Some g' \<longrightarrow> p \<notin> set g'))"
proof (intro conjI impI allI)
  show "check_duplicates env m ps device_name import_date d
     = (if 2 \<le> length (paths_with_digest env m d ps)
        then Some (paths_with_digest env m d ps) else None)"
    by (simp add: check_duplicates_groups_of groups_of_def)
next
  assume "check_duplicates env m ps device_name import_date d = Some g"
  then show "2 \<le> length g"
    by (auto simp: check_duplicates_groups_of groups_of_def split: if_splits)
next
  assume "check_duplicates env m ps device_name import_date d = Some g"
  then show "\<forall>q \<in> set g. q \<in> set ps \<and> calculate_checksum env m q = Inr d"
    by (auto simp: check_duplicates_groups_of groups_of_def paths_with_digest_def
        split: if_splits)
next
  fix d' g'
  assume one: "calculate_checksum env m p = Inr d \<and> length (paths_with_digest env m d ps) = 1"
    and grp: "check_duplicates env m ps device_name import_date d' = Some g'"
  show "p \<notin> set g'"
    using one grp
    by (auto simp: check_duplicates_groups_of groups_of_def paths_with_digest_def
        split: if_splits)
next
  fix d' g'
  assume alone: "distinct ps \<and> calculate_checksum env m p = Inr d
        \<and> (\<forall>q \<in> set ps. q \<noteq> p \<longrightarrow> calculate_checksum env m q \<noteq> Inr d)"
    and grp: "check_duplicates env m ps device_name import_date d' = Some g'"
  show "p \<notin> set g'"
  proof
    assume mem: "p \<in> set g'"
    from grp have g': "g' = paths_with_digest env m d' ps" and two: "2 \<le> length g'"
      by (auto simp: check_duplicates_groups_of groups_of_def split: if_splits)
    from mem g' alone have same: "d' = d"
      by (auto simp: paths_with_digest_def)
    have "set g' \<subseteq> {p}"
      using alone unfolding g' same by (auto simp: paths_with_digest_def)
    moreover have "distinct g'"
      using alone unfolding g' by (simp add: paths_with_digest_def)
    ultimately have "length g' \<le> 1"
      by (metis card_mono distinct_card finite.emptyI finite.insertI card.empty
          card_insert_if empty_iff One_nat_def)
    with two show False by simp
  qed
next
  fix d' g'
  assume "calculate_checksum env m p = Inl e"
    and "check_duplicates env m ps device_name import_date d' = Some g'"
  then show "p \<notin> set g'"
    by (auto simp: check_duplicates_groups_of groups_of_def paths_with_digest_def
        split: if_splits)
qed

theorem check_duplicates_groups_witness:
  "check_duplicates plain_env card_files
       [''/sd/a.jpg'', ''/sd/b.jpg'', ''/sd/c.jpg'', ''/sd/gone.jpg''] ''cam'' ''20240101''
       (short_digest [1, 2, 3]) = Some [''/sd/a.jpg'', ''/sd/b.jpg'']
   \<and> 2 \<le> length [''/sd/a.jpg'', ''/sd/b.jpg'']
   \<and> calculate_checksum plain_env card_files ''/sd/b.jpg'' = Inr (short_digest [1, 2, 3])
   \<and> length (paths_with_digest plain_env card_files (short_digest [1, 2, 4])
        [''/sd/a.jpg'', ''/sd/b.jpg'', ''/sd/c.jpg'', ''/sd/gone.jpg'']) = 1
   \<and> distinct [''/sd/a.jpg'', ''/sd/b.jpg'', ''/sd/c.jpg'', ''/sd/gone.jpg'']
   \<and> ''/sd/c.jpg'' \<notin> set [''/sd/a.jpg'', ''/sd/b.jpg'']
   \<and> calculate_checksum plain_env card_files ''/sd/gone.jpg''
        = Inl (OSError ''No such file or directory'')
   \<and> ''/sd/gone.jpg'' \<notin> set [''/sd/a.jpg'', ''/sd/b.jpg'']"
proof -
  let ?ps = "[''/sd/a.jpg'', ''/sd/b.jpg'', ''/sd/c.jpg'', ''/sd/gone.jpg'']"
  let ?check = "check_duplicates plain_env card_files ?ps ''cam'' ''20240101''"
  have sums:
    "calculate_checksum plain_env card_files ''/sd/a.jpg'' = Inr (short_digest [1, 2, 3])"
    "calculate_checksum plain_env card_files ''/sd/b.jpg'' = Inr (short_digest [1, 2, 3])"
    "calculate_checksum plain_env card_files ''/sd/c.jpg'' = Inr (short_digest [1, 2, 4])"
    "calculate_checksum plain_env card_files ''/sd/gone.jpg''
       = Inl (OSError ''No such file or directory'')"
    by (simp_all add: calculate_checksum_content eval_read)
  note differ = example_digests(1) example_digests(1) [symmetric]
  have same: "paths_with_digest plain_env card_files (short_digest [1, 2, 3]) ?ps
                = [''/sd/a.jpg'', ''/sd/b.jpg'']"
    by (simp add: paths_with_digest_def sums differ)
  have single: "length (paths_with_digest plain_env card_files (short_digest [1, 2, 4]) ?ps) = 1"
    by (simp add: paths_with_digest_def sums differ)
  have dist: "distinct ?ps" by simp
  have others: "\<forall>q \<in> set ?ps. q \<noteq> ''/sd/c.jpg''
      \<longrightarrow> calculate_checksum plain_env card_files q \<noteq> Inr (short_digest [1, 2, 4])"
    by (simp add: sums differ)
  have group: "?check (short_digest [1, 2, 3]) = Some [''/sd/a.jpg'', ''/sd/b.jpg'']"
    using check_duplicates_groups
      [THEN conjunct1, of plain_env card_files ?ps "''cam''" "''20240101''"
        "short_digest [1, 2, 3]"]
    by (simp add: same)
  have sized: "2 \<le> length [''/sd/a.jpg'', ''/sd/b.jpg'']
      \<and> (\<forall>q \<in> set [''/sd/a.jpg'', ''/sd/b.jpg'']. q \<in> set ?ps
            \<and> calculate_checksum plain_env card_files q = Inr (short_digest [1, 2, 3]))"
    by (rule check_duplicates_groups [THEN conjunct2, THEN conjunct1, THEN mp, OF group])
  have "\<forall>d' g'. ?check d' = Some g' \<longrightarrow> ''/sd/c.jpg'' \<notin> set g'"
    by (rule check_duplicates_groups
          [THEN conjunct2, THEN conjunct2, THEN conjunct1, THEN mp, OF conjI [OF sums(3) single]])
  with group have unique: "''/sd/c.jpg'' \<notin> set [''/sd/a.jpg'', ''/sd/b.jpg'']"
    by blast
  have "\<forall>d' g'. ?check d' = Some g' \<longrightarrow> ''/sd/c.jpg'' \<notin> set g'"
    by (rule check_duplicates_groups
          [THEN conjunct2, THEN conjunct2, THEN conjunct2, THEN conjunct1, THEN mp,
            OF conjI [OF dist conjI [OF sums(3) others]]])
  have "\<forall>d' g'. ?check d' = Some g' \<longrightarrow> ''/sd/gone.jpg'' \<notin> set g'"
    by (rule check_duplicates_groups
          [THEN conjunct2, THEN conjunct2, THEN conjunct2, THEN conjunct2, THEN mp, OF sums(4)])
  with group have failed: "''/sd/gone.jpg'' \<notin> set [''/sd/a.jpg'', ''/sd/b.jpg'']"
    by blast
  from sized have two: "2 \<le> length [''/sd/a.jpg'', ''/sd/b.jpg'']" ..
  show ?thesis
    by (intro conjI)
      (rule group, rule two, rule sums(2), rule single, rule dist, rule unique, rule sums(4),
        rule failed)
qed

text \<open>
  Claim C8 as it is written, over paths, fails for a path that is listed twice: the one
  path with its digest, shared by no other path, is returned as a group of two.
\<close>

theorem check_duplicates_repeated_path:
  "check_duplicates plain_env card_files [''/sd/c.jpg'', ''/sd/c.jpg''] ''cam'' ''20240101''
       (short_digest [1, 2, 4]) = Some [''/sd/c.jpg'', ''/sd/c.jpg'']
   \<and> calculate_checksum plain_env card_files ''/sd/c.jpg'' = Inr (short_digest [1, 2, 4])
   \<and> remdups [''/sd/c.jpg'', ''/sd/c.jpg''] = [''/sd/c.jpg'']"
  by (simp add: check_duplicates_groups_of groups_of_def paths_with_digest_def
      calculate_checksum_content eval_read)

section \<open>The copy of one file\<close>

text \<open>
  Creating directories changes no regular file, no statistics and no count of children:
  a directory is only created where nothing was.
\<close>

lemma os_mkdir_frame:
  "os_mkdir env m name = (r, m1) \<Longrightarrow>
     stats m1 = stats m \<and> spawned m1 = spawned m \<and> (\<forall>i. file_of m1 i = file_of m i)"
  by (auto simp: os_mkdir_def Let_def os_path_exists_def node_at_def file_of_def
      split: if_splits option.splits)

lemma makedirs_leaf_frame:
  "makedirs_leaf env m name = (r, m1) \<Longrightarrow>
     stats m1 = stats m \<and> spawned m1 = spawned m \<and> (\<forall>i. file_of m1 i = file_of m i)"
  by (auto simp: makedirs_leaf_def split: prod.splits option.splits if_splits
      dest!: os_mkdir_frame)

lemma os_makedirs_frame:
  "stats (snd (os_makedirs env m name)) = stats m
   \<and> spawned (snd (os_makedirs env m name)) = spawned m
   \<and> (\<forall>i. file_of (snd (os_makedirs env m name)) i = file_of m i)"
proof (induction env m name rule: os_makedirs.induct)
  case (1 env m name)
  let ?head = "fst (makedirs_parts name)"
  let ?tail = "snd (makedirs_parts name)"
  have leaf: "stats (snd (makedirs_leaf env m' name)) = stats m'
      \<and> spawned (snd (makedirs_leaf env m' name)) = spawned m'
      \<and> (\<forall>i. file_of (snd (makedirs_leaf env m' name)) i = file_of m' i)" for m'
    using makedirs_leaf_frame [of env m' name "fst (makedirs_leaf env m' name)"
        "snd (makedirs_leaf env m' name)"]
    by simp
  show ?case
  proof (cases "?head \<noteq> [] \<and> ?tail \<noteq> [] \<and> \<not> os_path_exists env m ?head")
    case False
    then have "os_makedirs env m name = makedirs_leaf env m name"
      by (subst os_makedirs.simps) auto
    with leaf [of m] show ?thesis by simp
  next
    case True
    obtain r m1 where rec: "os_makedirs env m ?head = (r, m1)"
      by (cases "os_makedirs env m ?head")
    have IH: "stats m1 = stats m \<and> spawned m1 = spawned m \<and> (\<forall>i. file_of m1 i = file_of m i)"
      using "1.IH" [OF True] rec by simp
    have "os_makedirs env m name = (r, m1) \<or> os_makedirs env m name = (None, m1)
        \<or> os_makedirs env m name = makedirs_leaf env m1 name"
      using True rec by (subst (1 2 3) os_makedirs.simps) (auto split: option.splits)
    with IH leaf [of m1] show ?thesis by auto
  qed
qed

lemma os_makedirs_frame_of:
  "os_makedirs env m name = (r, m1) \<Longrightarrow>
     stats m1 = stats m \<and> spawned m1 = spawned m \<and> (\<forall>i. file_of m1 i = file_of m i)"
  using os_makedirs_frame [of env m name] by simp

text \<open>A copy writes one object only, a target of the copy, and a removal removes one.\<close>

lemma shutil_copyfile_frame:
  "shutil_copyfile env m s t = (r, m1) \<Longrightarrow>
     stats m1 = stats m \<and> spawned m1 = spawned m
     \<and> (\<forall>i. i \<noteq> resolve env t \<longrightarrow> nodes m1 i = nodes m i)"
  by (auto simp: shutil_copyfile_def write_file_def
      split: sum.splits option.splits if_splits copy_fault.splits)

lemma copy_target_in_targets: "resolve env (copy_target env m s d) \<in> copy_targets env s d"
  by (simp add: copy_target_def copy_targets_def)

lemma shutil_copy2_frame:
  "shutil_copy2 env m s d = (r, m1) \<Longrightarrow>
     stats m1 = stats m \<and> spawned m1 = spawned m
     \<and> (\<forall>i. i \<notin> copy_targets env s d \<longrightarrow> nodes m1 i = nodes m i)"
proof -
  assume c: "shutil_copy2 env m s d = (r, m1)"
  obtain r0 where f: "shutil_copyfile env m s (copy_target env m s d) = (r0, m1)"
    using c by (auto simp: shutil_copy2_def split: prod.splits option.splits)
  from shutil_copyfile_frame [OF f] copy_target_in_targets [of env m s d]
  show ?thesis by metis
qed

lemma os_remove_frame:
  "os_remove env m d = (r, m1) \<Longrightarrow>
     stats m1 = stats m \<and> spawned m1 = spawned m
     \<and> (\<forall>i. i \<noteq> resolve env d \<longrightarrow> nodes m1 i = nodes m i)
     \<and> (r = None \<longrightarrow> \<not> os_path_exists env m1 d)
     \<and> (r \<noteq> None \<longrightarrow> m1 = m)
     \<and> (r \<noteq> None \<and> remove_error env d = None \<and> os_path_exists env m d
          \<longrightarrow> os_path_isdir env m d)"
  by (auto simp: os_remove_def os_path_exists_def os_path_isdir_def node_at_def
      split: option.splits node.splits if_splits) metis+

lemma file_of_nodes: "nodes m1 i = nodes m i \<Longrightarrow> file_of m1 i = file_of m i"
  by (simp add: file_of_def)

text \<open>
  The copy of a file leaves the statistics alone, and every regular file that is not a
  target of the copy.
\<close>

lemma copy_attempt_frame:
  "copy_attempt env m s d pt = (r, m') \<Longrightarrow>
     stats m' = stats m \<and> spawned m' = spawned m
     \<and> (\<forall>i. i \<notin> copy_targets env s d \<longrightarrow> file_of m' i = file_of m i)"
proof -
  assume a: "copy_attempt env m s d pt = (r, m')"
  obtain e0 m0 where mk: "os_makedirs env m (os_path_dirname d) = (e0, m0)"
    by (cases "os_makedirs env m (os_path_dirname d)")
  note f0 = os_makedirs_frame_of [OF mk]
  obtain e1 m1 where cp: "shutil_copy2 env m0 s d = (e1, m1)"
    by (cases "shutil_copy2 env m0 s d")
  note f1 = shutil_copy2_frame [OF cp]
  obtain e2 m2 where rm: "os_remove env m1 d = (e2, m2)"
    by (cases "os_remove env m1 d")
  note f2 = os_remove_frame [OF rm]
  have d: "resolve env d \<in> copy_targets env s d"
    by (simp add: copy_targets_def)
  have step1: "stats m1 = stats m \<and> spawned m1 = spawned m
     \<and> (\<forall>i. i \<notin> copy_targets env s d \<longrightarrow> file_of m1 i = file_of m i)"
  proof (intro conjI allI impI)
    show "stats m1 = stats m" "spawned m1 = spawned m" using f0 f1 by simp_all
  next
    fix i
    assume "i \<notin> copy_targets env s d"
    then have "nodes m1 i = nodes m0 i" using f1 by simp
    then have "file_of m1 i = file_of m0 i" by (rule file_of_nodes)
    then show "file_of m1 i = file_of m i" using f0 by simp
  qed
  have step2: "stats m2 = stats m \<and> spawned m2 = spawned m
     \<and> (\<forall>i. i \<notin> copy_targets env s d \<longrightarrow> file_of m2 i = file_of m i)"
  proof (intro conjI allI impI)
    show "stats m2 = stats m" "spawned m2 = spawned m" using step1 f2 by simp_all
  next
    fix i
    assume i: "i \<notin> copy_targets env s d"
    then have "i \<noteq> resolve env d" using d by auto
    then have "nodes m2 i = nodes m1 i" using f2 by simp
    then have "file_of m2 i = file_of m1 i" by (rule file_of_nodes)
    then show "file_of m2 i = file_of m i" using step1 i by simp
  qed
  have "m' = m \<or> m' = m0 \<or> m' = m1 \<or> m' = m2"
    using a
    by (simp add: copy_attempt_def Let_def mk cp rm
        split: sum.splits option.splits if_splits)
  then show ?thesis using f0 step1 step2 by blast
qed

lemma copy_file_with_verification_frame:
  "copy_file_with_verification env m s d pt = (r, m') \<Longrightarrow>
     stats m' = stats m \<and> spawned m' = spawned m
     \<and> (\<forall>i. i \<notin> copy_targets env s d \<longrightarrow> file_of m' i = file_of m i)"
  by (auto simp: copy_file_with_verification_def Let_def split: prod.splits
      dest!: copy_attempt_frame)





section \<open>The loops over a batch\<close>



lemma sync_files_append:
  "sync_files cfg env m (fl1 @ fl2) dev date
     = sync_files cfg env (sync_files cfg env m fl1 dev date) fl2 dev date"
  by (induction fl1 arbitrary: m) (auto simp: Let_def split: prod.splits)










section \<open>The probes\<close>

lemmas eval_probe = test_nas_connectivity_def check_vpn_status_def get_connection_status_def
  run_child_def network_of_def dflt_def py_split_ws_def py_isspace_def auto_cfg_def strict_cfg_def
  offline_env_def hanging_env_def no_child_env_def plain_env_def Let_def

text \<open>The storage probe has a time limit, so it never waits for ever.\<close>

lemma test_nas_connectivity_returns_or_raises:
  "fst (test_nas_connectivity net env m) \<noteq> Hangs"
  by (cases "py_split_ws (dflt ''ping -c 1 -W 5 synology.local'' (nas_test_command net))";
      cases "spawn env (spawned m) (py_split_ws (dflt ''ping -c 1 -W 5 synology.local'' (nas_test_command net)))")
     (auto simp: test_nas_connectivity_def run_child_def Let_def)

text \<open>
  Claim C9. Both probes should answer "unavailable" on every time-out and error of the
  probe, and each should put a time limit on what it runs. The storage probe does so for a
  child that never exits, but the tunnel check runs its command without any time limit
  and waits for ever on such a child; and neither probe catches the error of a child that
  cannot be started, which leaves the probe as an exception.
\<close>

theorem probes_not_fail_closed:
  "fst (test_nas_connectivity (network_of auto_cfg) hanging_env card_files) = Returns False
   \<and> fst (check_vpn_status (network_of auto_cfg) hanging_env card_files) = Hangs
   \<and> fst (test_nas_connectivity (network_of auto_cfg) no_child_env card_files)
       = Raises (OSError ''No such file or directory'')
   \<and> fst (check_vpn_status (network_of auto_cfg) no_child_env card_files)
       = Raises (OSError ''No such file or directory'')"
  by (simp add: eval_probe)

section \<open>What the probes and the preparation of a run leave alone\<close>

lemma run_child_frame:
  "nodes (snd (run_child env m argv t)) = nodes m \<and> stats (snd (run_child env m argv t)) = stats m"
  by (simp add: run_child_def)

lemma test_nas_connectivity_frame:
  "nodes (snd (test_nas_connectivity net env m)) = nodes m
   \<and> stats (snd (test_nas_connectivity net env m)) = stats m"
  by (auto simp: test_nas_connectivity_def run_child_def Let_def split: outcome.splits prod.splits)







section \<open>The choice of the strategy\<close>




section \<open>The statistics of a run\<close>

lemma node_at_stats [simp]: "node_at env (m\<lparr>stats := t\<rparr>) p = node_at env m p"
  by (simp add: node_at_def)

lemma os_path_getsize_stats [simp]:
  "os_path_getsize env (m\<lparr>stats := t\<rparr>) p = os_path_getsize env m p"
  by (simp add: os_path_getsize_def)

lemma source_size_stats [simp]: "source_size env (m\<lparr>stats := t\<rparr>) p = source_size env m p"
  by (simp add: source_size_def)


















section \<open>The push to the remote storage\<close>

lemma sync_files_frame:
  "stats (sync_files cfg env m lf dev date) = stats m
   \<and> ((\<forall>x \<in> set lf. i \<notin> copy_targets env (fst x) (nas_dest_of cfg dev date (snd x))) \<longrightarrow>
        file_of (sync_files cfg env m lf dev date) i = file_of m i)"
proof (induction lf arbitrary: m)
  case Nil
  show ?case by simp
next
  case (Cons x lf)
  obtain l rel where x: "x = (l, rel)" by (cases x)
  let ?dest = "os_path_join (dflt ''/mnt/nas/Photos'' (nas_storage_path cfg)) [dev, date, rel]"
  let ?copy = "copy_file_with_verification env m l ?dest True"
  obtain r m1 where c: "?copy = (r, m1)" by (cases ?copy)
  have step: "sync_files cfg env m (x # lf) dev date = sync_files cfg env m1 lf dev date"
    by (simp add: x c)
  have dest: "?dest = nas_dest_of cfg dev date (snd x)" by (simp add: nas_dest_of_def x)
  have frame: "stats m1 = stats m"
      "\<And>j. j \<notin> copy_targets env l ?dest \<Longrightarrow> file_of m1 j = file_of m j"
    using copy_file_with_verification_frame [OF c] by simp_all
  show ?case
    unfolding step using Cons.IH [of m1] frame dest by (auto simp: x)
qed

lemma sync_to_nas_async_frame:
  "stats (snd (sync_to_nas_async cfg env m lf dev date)) = stats m
   \<and> ((\<forall>x \<in> set lf. i \<notin> copy_targets env (fst x) (nas_dest_of cfg dev date (snd x))) \<longrightarrow>
        file_of (snd (sync_to_nas_async cfg env m lf dev date)) i = file_of m i)"
proof -
  obtain a m1 where n: "test_nas_connectivity (network_of cfg) env m = (a, m1)"
    by (cases "test_nas_connectivity (network_of cfg) env m")
  have m1: "nodes m1 = nodes m" "stats m1 = stats m"
    using test_nas_connectivity_frame [of "network_of cfg" env m] n by simp_all
  then have "file_of m1 i = file_of m i"
    by (simp add: file_of_def)
  then show ?thesis
    using sync_files_frame [of cfg env m1 lf dev date i] m1
    by (cases a) (auto simp: sync_to_nas_async_def n)
qed

lemma transfer_local_first_stats:
  "stats (snd (transfer_local_first cfg env m fl dev date))
     = stats (fst (stage_files cfg env m fl dev date []))"
  by (simp add: transfer_local_first_def sync_to_nas_async_frame split: prod.splits)






section \<open>The push and the staged files\<close>

text \<open>
  Claim C10, as the code has it. The push to the remote storage changes no field of the
  statistics, whether its probe and its copies succeed or fail, so the statistics of a
  staged run are those of the staging loop. The only regular files it writes or removes
  are the targets of its copies, the objects that its remote destinations name: every
  other regular file, and so every staged file that is no such object, is as it was.
\<close>

theorem sync_to_nas_async_leaves_stats_and_files:
  "stats (snd (sync_to_nas_async cfg env m lf dev date)) = stats m
   \<and> stats (snd (transfer_local_first cfg env m fl dev date))
       = stats (fst (stage_files cfg env m fl dev date []))
   \<and> ((\<forall>x \<in> set lf. i \<notin> copy_targets env (fst x) (nas_dest_of cfg dev date (snd x))) \<longrightarrow>
        file_of (snd (sync_to_nas_async cfg env m lf dev date)) i = file_of m i)"
  using sync_to_nas_async_frame [of cfg env m lf dev date i]
    transfer_local_first_stats [of cfg env m fl dev date]
  by simp

theorem sync_to_nas_async_leaves_stats_and_files_witness:
  "file_of (snd (sync_to_nas_async auto_cfg plain_env card_files one_file ''cam'' ''20240101''))
        ''/sd/a.jpg'' = file_of card_files ''/sd/a.jpg''"
proof -
  have apart: "\<forall>x \<in> set one_file.
      ''/sd/a.jpg'' \<notin> copy_targets plain_env (fst x)
                        (nas_dest_of auto_cfg ''cam'' ''20240101'' (snd x))"
    by code_simp
  show ?thesis
    by (rule sync_to_nas_async_leaves_stats_and_files
          [THEN conjunct2, THEN conjunct2, THEN mp, OF apart])
qed

text \<open>
  Claim C10 as it is written, for every staged file, fails when the remote destination of
  one file is the staged copy of another: below both files are staged, the push of the
  first arrives corrupted at the path of the second staged file, the verification fails,
  and the rollback removes that staged file.
\<close>

theorem sync_to_nas_async_counterexample:
  "snd (stage_files nested_cfg corrupt_push_env card_files nested_files ''c'' ''d'' [])
     = [(''/a/c/d/c/d/c/d/x'', ''c/d/x''), (''/a/c/d/c/d/x'', ''x'')]
   \<and> file_of (fst (stage_files nested_cfg corrupt_push_env card_files nested_files ''c'' ''d'' []))
        (resolve corrupt_push_env ''/a/c/d/c/d/x'') = Some [1, 2, 4]
   \<and> file_of (snd (transfer_local_first nested_cfg corrupt_push_env card_files nested_files
                   ''c'' ''d''))
        (resolve corrupt_push_env ''/a/c/d/c/d/x'') = None"
  by code_simp

end
